theory Spec2Isabelle
  imports Main
begin

section \<open>JavaScript values\<close>

text \<open>
  Rules, conditions, constraints and criteria are plain JavaScript values of JSON shape.
  The model covers \<^verbatim>\<open>undefined\<close>, \<^verbatim>\<open>null\<close>, booleans, numbers, strings,
  arrays and plain objects. Scope of the value model:
  \<^item> numbers are the integers (the fragment of the doubles without NaN, fractions or
    a negative zero), of magnitude below \<open>10^21\<close>: from there on the language prints a
    number in exponent notation (\<^verbatim>\<open>1e+21\<close>), which \<open>to_string\<close> does not;
  \<^item> an object is the association list of its own properties, and a lookup takes the
    first binding of a key; members inherited from a prototype (functions such as
    \<^verbatim>\<open>toString\<close> and \<^verbatim>\<open>constructor\<close>) are not values of the model, so a field
    that names one reads as \<^verbatim>\<open>undefined\<close> here, where the code gets a function;
  \<^item> a character is one code unit;
  \<^item> the objects and arrays of a rule and those of the criteria are different heap
    objects, so \<^verbatim>\<open>===\<close> between two arrays or two objects is false.
\<close>

datatype jsval =
    JUndefined
  | JNull
  | JBool bool
  | JNum int
  | JStr string
  | JArr "jsval list"
  | JObj "(string \<times> jsval) list"

text \<open>
  What a call can do besides returning: throw, or recurse without end through rule
  references (the source has no cycle guard). \<open>Error m\<close> is \<^verbatim>\<open>new Error(m)\<close>.
  The recursive functions take a bound on the call depth and give \<open>OutOfFuel\<close> when it
  is used up.
\<close>

datatype exn = Error string | TypeError | SyntaxError

datatype 'a outcome = Return 'a | Throw exn | OutOfFuel

definition bind :: "'a outcome \<Rightarrow> ('a \<Rightarrow> 'b outcome) \<Rightarrow> 'b outcome" where
  "bind m f = (case m of Return x \<Rightarrow> f x | Throw e \<Rightarrow> Throw e | OutOfFuel \<Rightarrow> OutOfFuel)"

text \<open>
  The primitives of the host that the code calls and the repository does not define:
  the regular expressions of \<^verbatim>\<open>new RegExp(p)\<close> (whether the source text \<open>p\<close>
  compiles, and \<^verbatim>\<open>RegExp.prototype.test\<close>), and the number a string converts to
  (\<open>None\<close> for NaN).
\<close>

record host =
  regexp_valid :: "string \<Rightarrow> bool"
  regexp_test :: "string \<Rightarrow> string \<Rightarrow> bool"
  string_to_number :: "string \<Rightarrow> int option"

subsection \<open>Conversions and operators of the language\<close>

definition digit_char :: "nat \<Rightarrow> char" where
  "digit_char d = ''0123456789'' ! d"

fun string_of_nat :: "nat \<Rightarrow> string" where
  "string_of_nat n =
     (if n < 10 then [digit_char n] else string_of_nat (n div 10) @ [digit_char (n mod 10)])"

declare string_of_nat.simps [simp del]

definition string_of_int :: "int \<Rightarrow> string" where
  "string_of_int i = (if i < 0 then CHR ''-'' # string_of_nat (nat (- i)) else string_of_nat (nat i))"

fun join_comma :: "string list \<Rightarrow> string" where
  "join_comma [] = []"
| "join_comma [s] = s"
| "join_comma (s # t # ss) = s @ '','' @ join_comma (t # ss)"

text \<open>\<^verbatim>\<open>ToString\<close>, as a template literal and a property key apply it.\<close>

fun to_string :: "jsval \<Rightarrow> string" where
  "to_string JUndefined = ''undefined''"
| "to_string JNull = ''null''"
| "to_string (JBool b) = (if b then ''true'' else ''false'')"
| "to_string (JNum i) = string_of_int i"
| "to_string (JStr s) = s"
| "to_string (JArr xs) =
     join_comma (map (\<lambda>x. if x = JUndefined \<or> x = JNull then [] else to_string x) xs)"
| "to_string (JObj kvs) = ''[object Object]''"

definition truthy :: "jsval \<Rightarrow> bool" where
  "truthy v = (v \<noteq> JUndefined \<and> v \<noteq> JNull \<and> v \<noteq> JBool False \<and> v \<noteq> JNum 0 \<and> v \<noteq> JStr [])"

definition is_array :: "jsval \<Rightarrow> bool" where
  "is_array v = (case v of JArr xs \<Rightarrow> True | _ \<Rightarrow> False)"

definition is_string :: "jsval \<Rightarrow> bool" where
  "is_string v = (case v of JStr s \<Rightarrow> True | _ \<Rightarrow> False)"

definition array_index :: "string \<Rightarrow> nat \<Rightarrow> nat option" where
  "array_index k n = List.find (\<lambda>i. string_of_nat i = k) [0..<n]"

text \<open>\<^verbatim>\<open>v[k]\<close> on a value that is neither \<^verbatim>\<open>undefined\<close> nor \<^verbatim>\<open>null\<close>.\<close>

fun prop_of :: "jsval \<Rightarrow> string \<Rightarrow> jsval" where
  "prop_of (JObj kvs) k = (case map_of kvs k of None \<Rightarrow> JUndefined | Some v \<Rightarrow> v)"
| "prop_of (JArr xs) k =
     (if k = ''length'' then JNum (int (length xs))
      else case array_index k (length xs) of None \<Rightarrow> JUndefined | Some i \<Rightarrow> xs ! i)"
| "prop_of (JStr s) k =
     (if k = ''length'' then JNum (int (length s))
      else case array_index k (length s) of None \<Rightarrow> JUndefined | Some i \<Rightarrow> JStr [s ! i])"
| "prop_of v k = JUndefined"

text \<open>\<^verbatim>\<open>v[k]\<close> in general: reading a property of \<^verbatim>\<open>undefined\<close> or \<^verbatim>\<open>null\<close> throws.\<close>

definition get_prop :: "jsval \<Rightarrow> string \<Rightarrow> jsval outcome" where
  "get_prop v k = (if v = JUndefined \<or> v = JNull then Throw TypeError else Return (prop_of v k))"

text \<open>\<^verbatim>\<open>k in v\<close>: throws unless \<open>v\<close> is an object or an array.\<close>

fun has_key :: "string \<Rightarrow> jsval \<Rightarrow> bool" where
  "has_key k (JObj kvs) = (k \<in> set (map fst kvs))"
| "has_key k (JArr xs) = (k = ''length'' \<or> array_index k (length xs) \<noteq> None)"
| "has_key k v = False"

definition js_in :: "string \<Rightarrow> jsval \<Rightarrow> bool outcome" where
  "js_in k v = (case v of JObj kvs \<Rightarrow> Return (has_key k v) | JArr xs \<Rightarrow> Return (has_key k v)
                | _ \<Rightarrow> Throw TypeError)"

text \<open>
  \<^verbatim>\<open>a === b\<close>. On the values of the model \<^verbatim>\<open>Array.prototype.includes\<close> compares
  in the same way.
\<close>

fun strict_eq :: "jsval \<Rightarrow> jsval \<Rightarrow> bool" where
  "strict_eq JUndefined JUndefined = True"
| "strict_eq JNull JNull = True"
| "strict_eq (JBool a) (JBool b) = (a = b)"
| "strict_eq (JNum a) (JNum b) = (a = b)"
| "strict_eq (JStr a) (JStr b) = (a = b)"
| "strict_eq a b = False"

fun str_less :: "string \<Rightarrow> string \<Rightarrow> bool" where
  "str_less [] [] = False"
| "str_less [] (b # bs) = True"
| "str_less (a # as) [] = False"
| "str_less (a # as) (b # bs) =
     (if of_char a < (of_char b :: nat) then True
      else if of_char a = (of_char b :: nat) then str_less as bs else False)"

text \<open>\<^verbatim>\<open>ToPrimitive\<close> and \<^verbatim>\<open>ToNumber\<close> (\<open>None\<close> is NaN).\<close>

definition to_primitive :: "jsval \<Rightarrow> jsval" where
  "to_primitive v = (case v of JArr xs \<Rightarrow> JStr (to_string v) | JObj kvs \<Rightarrow> JStr (to_string v) | _ \<Rightarrow> v)"

definition to_number :: "host \<Rightarrow> jsval \<Rightarrow> int option" where
  "to_number h v =
     (case v of JUndefined \<Rightarrow> None | JNull \<Rightarrow> Some 0 | JBool b \<Rightarrow> Some (if b then 1 else 0)
      | JNum i \<Rightarrow> Some i | JStr s \<Rightarrow> string_to_number h s | _ \<Rightarrow> None)"

text \<open>\<^verbatim>\<open>a < b\<close> as the language computes it; \<open>None\<close> is the undefined comparison with NaN.\<close>

definition js_lt :: "host \<Rightarrow> jsval \<Rightarrow> jsval \<Rightarrow> bool option" where
  "js_lt h a b =
     (case (to_primitive a, to_primitive b) of
        (JStr s, JStr t) \<Rightarrow> Some (str_less s t)
      | (pa, pb) \<Rightarrow>
          (case (to_number h pa, to_number h pb) of
             (Some x, Some y) \<Rightarrow> Some (x < y)
           | _ \<Rightarrow> None))"

definition js_less :: "host \<Rightarrow> jsval \<Rightarrow> jsval \<Rightarrow> bool" where
  "js_less h a b = (js_lt h a b = Some True)"

definition js_greater :: "host \<Rightarrow> jsval \<Rightarrow> jsval \<Rightarrow> bool" where
  "js_greater h a b = (js_lt h b a = Some True)"

definition js_less_eq :: "host \<Rightarrow> jsval \<Rightarrow> jsval \<Rightarrow> bool" where
  "js_less_eq h a b = (js_lt h b a = Some False)"

definition js_greater_eq :: "host \<Rightarrow> jsval \<Rightarrow> jsval \<Rightarrow> bool" where
  "js_greater_eq h a b = (js_lt h a b = Some False)"

definition is_substring :: "string \<Rightarrow> string \<Rightarrow> bool" where
  "is_substring p s = list_ex (\<lambda>i. take (length p) (drop i s) = p) [0..<Suc (length s)]"

text \<open>
  \<^verbatim>\<open>r.includes(x)\<close>: arrays and strings have the method; on the other values of the
  model \<^verbatim>\<open>r.includes\<close> is not a function (or \<open>r\<close> is \<^verbatim>\<open>null\<close>) and the call throws.
\<close>

definition js_includes :: "jsval \<Rightarrow> jsval \<Rightarrow> bool outcome" where
  "js_includes r x =
     (case r of
        JArr xs \<Rightarrow> Return (list_ex (\<lambda>e. strict_eq e x) xs)
      | JStr s \<Rightarrow> Return (is_substring (to_string x) s)
      | _ \<Rightarrow> Throw TypeError)"

text \<open>\<^verbatim>\<open>for (let node of v)\<close>: the elements of an array, the characters of a string.\<close>

definition iterate :: "jsval \<Rightarrow> jsval list outcome" where
  "iterate v =
     (case v of JArr xs \<Rightarrow> Return xs | JStr s \<Rightarrow> Return (map (\<lambda>c. JStr [c]) s)
      | _ \<Rightarrow> Throw TypeError)"

text \<open>\<^verbatim>\<open>new RegExp(p).test(s)\<close>; the constructor throws when the source does not compile.\<close>

definition regexp_source :: "jsval \<Rightarrow> string" where
  "regexp_source p = (if p = JUndefined then ''(?:)'' else to_string p)"

definition new_regexp_test :: "host \<Rightarrow> jsval \<Rightarrow> string \<Rightarrow> bool outcome" where
  "new_regexp_test h p s =
     (if regexp_valid h (regexp_source p) then Return (regexp_test h (regexp_source p) s)
      else Throw SyntaxError)"

text \<open>
  Modelled from the spec: the global \<^verbatim>\<open>empty()\<close> of the platform, which the
  repository calls and does not define. Empty are the absent value, \<^verbatim>\<open>null\<close>, the
  empty string and the empty sequence or record; the number 0 and \<^verbatim>\<open>false\<close> are not.
\<close>

definition empty :: "jsval \<Rightarrow> bool" where
  "empty v = (v = JUndefined \<or> v = JNull \<or> v = JStr [] \<or> v = JArr [] \<or> v = JObj [])"

section \<open>ObjectDiscovery\<close>

definition conditionType :: "jsval \<Rightarrow> string option outcome" where
  "conditionType condition =
     bind (js_in ''any'' condition) (\<lambda>a. if a then Return (Some ''any'') else
     bind (js_in ''all'' condition) (\<lambda>a. if a then Return (Some ''all'') else
     bind (js_in ''none'' condition) (\<lambda>a. if a then Return (Some ''none'') else
     Return None)))"

definition isObject :: "jsval \<Rightarrow> bool" where
  "isObject obj = (case obj of JObj kvs \<Rightarrow> True | _ \<Rightarrow> False)"

definition isCondition :: "jsval \<Rightarrow> bool" where
  "isCondition obj =
     (if \<not> isObject obj then False
      else has_key ''any'' obj \<or> has_key ''all'' obj \<or> has_key ''none'' obj)"

definition isConstraint :: "jsval \<Rightarrow> bool" where
  "isConstraint obj =
     (if \<not> isObject obj then False
      else has_key ''field'' obj \<and> has_key ''operator'' obj \<and> has_key ''value'' obj)"

fun split_dot :: "string \<Rightarrow> string list" where
  "split_dot [] = [[]]"
| "split_dot (c # cs) =
     (if c = CHR ''.'' then [] # split_dot cs
      else (case split_dot cs of [] \<Rightarrow> [[c]] | w # ws \<Rightarrow> (c # w) # ws))"

definition resolveNestedProperty :: "string \<Rightarrow> jsval \<Rightarrow> jsval" where
  "resolveNestedProperty path obj =
     foldl (\<lambda>prev curr. if truthy prev then prop_of prev curr else JUndefined) obj (split_dot path)"

section \<open>The stored rules\<close>

text \<open>
  A stored rule (\<^verbatim>\<open>r.custom\<close>) has an identifier and the text of its conditions.
  \<open>rule_conditions\<close> is what \<^verbatim>\<open>JSON.parse(r.custom.conditions)\<close> gives: \<open>None\<close>
  when the text is not JSON and the parser throws.
\<close>

record stored_rule =
  rule_id :: string
  rule_conditions :: "jsval option"

definition lookup_message :: "string \<Rightarrow> string" where
  "lookup_message ident = ''Invalid rule reference. '' @ ident @ '' does not reference any known rule.''"

text \<open>\<^verbatim>\<open>_getById\<close>, the same in Validator and Evaluator.\<close>

definition getById :: "stored_rule list \<Rightarrow> string \<Rightarrow> jsval outcome" where
  "getById rules ident =
     (case List.find (\<lambda>r. rule_id r = ident) rules of
        None \<Rightarrow> Throw (Error (lookup_message ident))
      | Some rule \<Rightarrow>
          (case rule_conditions rule of None \<Rightarrow> Throw SyntaxError | Some c \<Rightarrow> Return c))"

text \<open>The step both walks take on a node: a string is replaced by the rule it names.\<close>

definition resolve_node :: "stored_rule list \<Rightarrow> jsval \<Rightarrow> jsval outcome" where
  "resolve_node rules node = (case node of JStr ident \<Rightarrow> getById rules ident | _ \<Rightarrow> Return node)"

text \<open>\<^verbatim>\<open>rule.conditions instanceof Array ? rule.conditions : [rule.conditions]\<close>\<close>

definition normalize_conditions :: "jsval \<Rightarrow> jsval list outcome" where
  "normalize_conditions rule =
     bind (get_prop rule ''conditions'')
       (\<lambda>cs. case cs of JArr xs \<Rightarrow> Return xs | _ \<Rightarrow> Return [cs])"

section \<open>Evaluator\<close>

text \<open>
  The first statement of \<^verbatim>\<open>_checkConstraint\<close>: the criterion a constraint's field
  names. \<^verbatim>\<open>field.includes('.')\<close> exists on strings and arrays only, and
  \<^verbatim>\<open>path.split\<close> on strings only.
\<close>

definition resolve_field :: "jsval \<Rightarrow> jsval \<Rightarrow> jsval outcome" where
  "resolve_field field criteria =
     bind (js_includes field (JStr ''.''))
       (\<lambda>dotted.
          if dotted then
            (case field of JStr path \<Rightarrow> Return (resolveNestedProperty path criteria)
             | _ \<Rightarrow> Throw TypeError)
          else get_prop criteria (to_string field))"

text \<open>\<^verbatim>\<open>value.some((x) => criterion.includes(x))\<close> on the elements of an array value.\<close>

fun some_includes :: "jsval \<Rightarrow> jsval list \<Rightarrow> bool outcome" where
  "some_includes criterion [] = Return False"
| "some_includes criterion (x # xs) =
     bind (js_includes criterion x)
       (\<lambda>found. if found then Return True else some_includes criterion xs)"

definition array_elems :: "jsval \<Rightarrow> jsval list" where
  "array_elems v = (case v of JArr xs \<Rightarrow> xs | _ \<Rightarrow> [])"

definition array_includes :: "jsval \<Rightarrow> jsval \<Rightarrow> bool" where
  "array_includes arr x = list_ex (\<lambda>e. strict_eq e x) (array_elems arr)"

text \<open>The \<^verbatim>\<open>switch\<close> of \<^verbatim>\<open>_checkConstraint\<close>, in the order of its cases.\<close>

definition apply_operator :: "host \<Rightarrow> jsval \<Rightarrow> jsval \<Rightarrow> jsval \<Rightarrow> bool outcome" where
  "apply_operator h operator criterion val =
     (if operator = JStr ''equals'' then Return (strict_eq criterion val)
      else if operator = JStr ''does not equal'' then Return (\<not> strict_eq criterion val)
      else if operator = JStr ''greater than'' then Return (js_greater h criterion val)
      else if operator = JStr ''greater than or equal'' then Return (js_greater_eq h criterion val)
      else if operator = JStr ''less than'' then Return (js_less h criterion val)
      else if operator = JStr ''less than or equal'' then Return (js_less_eq h criterion val)
      else if operator = JStr ''exists'' then Return (\<not> empty criterion)
      else if operator = JStr ''does not exist'' then Return (empty criterion)
      else if operator = JStr ''in'' then Return (is_array val \<and> array_includes val criterion)
      else if operator = JStr ''not in'' then Return (\<not> is_array val \<or> \<not> array_includes val criterion)
      else if operator = JStr ''contains'' then
        Return (is_array criterion \<and> array_includes criterion val)
      else if operator = JStr ''not contains'' then
        Return (\<not> is_array criterion \<or> \<not> array_includes criterion val)
      else if operator = JStr ''contains any'' then
        (if is_array val then some_includes criterion (array_elems val) else Return False)
      else if operator = JStr ''not contains any'' then
        (if \<not> is_array val then Return True
         else bind (some_includes criterion (array_elems val)) (\<lambda>b. Return (\<not> b)))
      else if operator = JStr ''matches'' then new_regexp_test h criterion (to_string val)
      else if operator = JStr ''does not match'' then
        bind (new_regexp_test h criterion (to_string val)) (\<lambda>b. Return (\<not> b))
      else Return False)"

definition checkConstraint :: "host \<Rightarrow> jsval \<Rightarrow> jsval \<Rightarrow> bool outcome" where
  "checkConstraint h constraint criteria =
     bind (resolve_field (prop_of constraint ''field'') criteria)
       (\<lambda>criterion.
          if JUndefined = criterion then Return False
          else apply_operator h (prop_of constraint ''operator'') criterion
                 (prop_of constraint ''value''))"

text \<open>
  What the loop of \<^verbatim>\<open>_evaluateCondition\<close> dispatches a resolved node to:
  \<^verbatim>\<open>this[fn](node, criteria)\<close>, with \<open>None\<close> when \<^verbatim>\<open>fn\<close> stays unset.
\<close>

definition dispatch ::
  "(jsval \<Rightarrow> jsval \<Rightarrow> bool outcome) \<Rightarrow> host \<Rightarrow> jsval \<Rightarrow> (jsval \<Rightarrow> bool outcome) option" where
  "dispatch rec h node =
     (if isCondition node then Some (rec node)
      else if isConstraint node then Some (checkConstraint h node)
      else None)"

text \<open>
  The loop over the nodes of a branch, with the running \<^verbatim>\<open>result\<close>. The operators
  \<^verbatim>\<open>||\<close> and \<^verbatim>\<open>&&\<close> do not call the node's function once the left side decides.
  The logger call before \<^verbatim>\<open>return false\<close> has no effect on the result.
\<close>

fun evaluateNodes ::
  "(jsval \<Rightarrow> jsval \<Rightarrow> bool outcome) \<Rightarrow> host \<Rightarrow> stored_rule list \<Rightarrow> string \<Rightarrow> jsval \<Rightarrow> bool
     \<Rightarrow> jsval list \<Rightarrow> bool outcome" where
  "evaluateNodes rec h rules type criteria result [] = Return result"
| "evaluateNodes rec h rules type criteria result (node # nodes) =
     bind (resolve_node rules node)
       (\<lambda>node'.
          case dispatch rec h node' of
            None \<Rightarrow> Return False
          | Some fn \<Rightarrow>
              bind
                (if type = ''any'' then
                   (if result then Return True else fn criteria)
                 else if type = ''all'' then
                   (if result then fn criteria else Return False)
                 else if type = ''none'' then
                   (if result then bind (fn criteria) (\<lambda>b. Return (\<not> b)) else Return False)
                 else Return result)
                (\<lambda>result'. evaluateNodes rec h rules type criteria result' nodes))"

primrec evaluateCondition ::
  "nat \<Rightarrow> host \<Rightarrow> stored_rule list \<Rightarrow> jsval \<Rightarrow> jsval \<Rightarrow> bool outcome" where
  "evaluateCondition 0 h rules condition criteria = OutOfFuel"
| "evaluateCondition (Suc n) h rules condition criteria =
     bind (conditionType condition)
       (\<lambda>type. case type of
          None \<Rightarrow> Return False
        | Some t \<Rightarrow>
            bind (iterate (prop_of condition t))
              (\<lambda>nodes. evaluateNodes (evaluateCondition n h rules) h rules t criteria
                          (t \<in> set [''all'', ''none'']) nodes))"

text \<open>\<^verbatim>\<open>_evaluateRule\<close>: the first top-level condition that holds decides.\<close>

fun evaluateRule ::
  "nat \<Rightarrow> host \<Rightarrow> stored_rule list \<Rightarrow> jsval list \<Rightarrow> jsval \<Rightarrow> bool outcome" where
  "evaluateRule n h rules [] criteria = Return False"
| "evaluateRule n h rules (condition # conditions) criteria =
     bind (evaluateCondition n h rules condition criteria)
       (\<lambda>result.
          if result then
            (case prop_of condition ''result'' of JBool b \<Rightarrow> Return b | _ \<Rightarrow> Return True)
          else evaluateRule n h rules conditions criteria)"

text \<open>\<^verbatim>\<open>evaluate\<close> gives one boolean for a criteria record and a list for an array of them.\<close>

datatype verdict = One bool | Each "bool list"

fun evaluate_each ::
  "nat \<Rightarrow> host \<Rightarrow> stored_rule list \<Rightarrow> jsval list \<Rightarrow> jsval list \<Rightarrow> bool list outcome" where
  "evaluate_each n h rules conditions [] = Return []"
| "evaluate_each n h rules conditions (c # cs) =
     bind (evaluateRule n h rules conditions c)
       (\<lambda>b. bind (evaluate_each n h rules conditions cs) (\<lambda>bs. Return (b # bs)))"

definition evaluate :: "nat \<Rightarrow> host \<Rightarrow> stored_rule list \<Rightarrow> jsval \<Rightarrow> jsval \<Rightarrow> verdict outcome" where
  "evaluate n h rules rule criteria =
     bind (normalize_conditions rule)
       (\<lambda>conditions.
          case criteria of
            JArr cs \<Rightarrow> bind (evaluate_each n h rules conditions cs) (\<lambda>bs. Return (Each bs))
          | _ \<Rightarrow> bind (evaluateRule n h rules conditions criteria) (\<lambda>b. Return (One b)))"

section \<open>Validator\<close>

record verror =
  message :: string
  element :: jsval

record ValidationResult =
  isValid :: bool
  error :: "verror option"

definition valid :: ValidationResult where
  "valid = \<lparr>isValid = True, error = None\<rparr>"

definition invalid :: "string \<Rightarrow> jsval \<Rightarrow> ValidationResult" where
  "invalid msg el = \<lparr>isValid = False, error = Some \<lparr>message = msg, element = el\<rparr>\<rparr>"

text \<open>
  The two assignments both loops make after a sub-validation:
  \<^verbatim>\<open>result.isValid = result.isValid && subResult.isValid\<close> and
  \<^verbatim>\<open>result.error = result.error ? result.error : subResult.error\<close>.
\<close>

definition merge :: "ValidationResult \<Rightarrow> ValidationResult \<Rightarrow> ValidationResult" where
  "merge result subResult =
     \<lparr>isValid = isValid result \<and> isValid subResult,
      error = (case error result of Some e \<Rightarrow> Some e | None \<Rightarrow> error subResult)\<rparr>"

definition operators :: "string list" where
  "operators =
     [''equals'', ''does not equal'', ''greater than'', ''less than'',
      ''greater than or equal'', ''less than or equal'', ''exists'', ''does not exist'',
      ''in'', ''not in'', ''contains'', ''not contains'', ''contains any'',
      ''not contains any'', ''matches'', ''does not match'']"

text \<open>\<^verbatim>\<open>list.includes(v)\<close> for a list of string literals: only a string can be a member.\<close>

definition strings_include :: "string list \<Rightarrow> jsval \<Rightarrow> bool" where
  "strings_include list v = (case v of JStr s \<Rightarrow> s \<in> set list | _ \<Rightarrow> False)"

definition validateConstraint :: "host \<Rightarrow> jsval \<Rightarrow> ValidationResult" where
  \<open>validateConstraint h constraint =
     (if \<not> is_string (prop_of constraint ''field'') then
        invalid ''Constraint "field" must be of type string.'' constraint
      else if \<not> strings_include operators (prop_of constraint ''operator'') then
        invalid ''Constraint "operator" has invalid type.'' constraint
      else if strings_include [''in'', ''not in'', ''contains any'', ''not contains any'']
                (prop_of constraint ''operator'')
              \<and> \<not> is_array (prop_of constraint ''value'') then
        invalid ''Constraint "value" must be an array if the "operator" is in ["in", "not in", "contains any", "not contains any"]'' constraint
      else if strings_include [''matches'', ''does not match''] (prop_of constraint ''operator'')
              \<and> \<not> regexp_valid h (regexp_source (prop_of constraint ''value'')) then
        invalid ''Constraint "value" must be a valid regular expression if the "operator" is in ["matches", "not matches"]'' constraint
      else valid)\<close>

definition isValidCondition :: "jsval \<Rightarrow> ValidationResult" where
  \<open>isValidCondition obj =
     (if \<not> isCondition obj then invalid ''Invalid condition structure.'' obj
      else
        let isAny = has_key ''any'' obj; isAll = has_key ''all'' obj; isNone = has_key ''none'' obj
        in if (isAny \<and> isAll) \<or> (isAny \<and> isNone) \<or> (isAll \<and> isNone) then
             invalid ''A condition cannot have more than one "any", "all", or "none" property.'' obj
           else valid)\<close>

text \<open>
  The loop of \<^verbatim>\<open>_validateCondition\<close> over the nodes of the branch, with the running
  \<^verbatim>\<open>result\<close>. \<open>condition\<close> is the condition the branch belongs to: it has passed
  \<^verbatim>\<open>_isValidCondition\<close>, so it is an object and \<^verbatim>\<open>'result' in condition\<close> does
  not throw.
\<close>

fun validateNodes ::
  "(jsval \<Rightarrow> nat \<Rightarrow> ValidationResult outcome) \<Rightarrow> host \<Rightarrow> stored_rule list \<Rightarrow> jsval \<Rightarrow> nat
     \<Rightarrow> ValidationResult \<Rightarrow> jsval list \<Rightarrow> ValidationResult outcome" where
  "validateNodes rec h rules condition depth result [] = Return result"
| \<open>validateNodes rec h rules condition depth result (node # nodes) =
     bind (resolve_node rules node)
       (\<lambda>node'.
          bind
            (if isCondition node' then
               bind (rec node' (depth + 1)) (\<lambda>subResult. Return (merge result subResult))
             else if isConstraint node' then
               Return (merge result (validateConstraint h node'))
             else Return result)
            (\<lambda>result'.
               if \<not> isConstraint node' \<and> \<not> isCondition node' then
                 Return (invalid ''Each node should be a condition or constraint.'' node')
               else if depth > 0 \<and> has_key ''result'' condition then
                 Return (invalid ''Nested conditions cannot have a property "result".'' node')
               else if \<not> isValid result' then Return result'
               else validateNodes rec h rules condition depth result' nodes))\<close>

definition not_iterable_message :: "string \<Rightarrow> string" where
  "not_iterable_message t = ''The condition '' @ [CHR 0x27] @ t @ [CHR 0x27] @ '' should be iterable.''"

primrec validateCondition ::
  "nat \<Rightarrow> host \<Rightarrow> stored_rule list \<Rightarrow> jsval \<Rightarrow> nat \<Rightarrow> ValidationResult outcome" where
  "validateCondition 0 h rules condition depth = OutOfFuel"
| "validateCondition (Suc n) h rules condition depth =
     bind (resolve_node rules condition)
       (\<lambda>condition'.
          let result = isValidCondition condition' in
          if \<not> isValid result then Return result
          else
            bind (conditionType condition')
              (\<lambda>type.
                 let t = (case type of Some t \<Rightarrow> t | None \<Rightarrow> ''null'') in
                 if \<not> is_array (prop_of condition' t) then
                   Return (invalid (not_iterable_message t) condition')
                 else
                   validateNodes (validateCondition n h rules) h rules condition' depth result
                     (array_elems (prop_of condition' t))))"

text \<open>The loop of \<^verbatim>\<open>validate\<close> over the top-level conditions: no \<^verbatim>\<open>break\<close>.\<close>

fun validateConditions ::
  "(jsval \<Rightarrow> nat \<Rightarrow> ValidationResult outcome) \<Rightarrow> ValidationResult \<Rightarrow> jsval list
     \<Rightarrow> ValidationResult outcome" where
  "validateConditions rec result [] = Return result"
| "validateConditions rec result (condition # conditions) =
     bind (rec condition 0)
       (\<lambda>subResult. validateConditions rec (merge result subResult) conditions)"

definition object_keys :: "jsval \<Rightarrow> string list" where
  "object_keys v = (case v of JObj kvs \<Rightarrow> map fst kvs | _ \<Rightarrow> [])"

definition validate :: "nat \<Rightarrow> host \<Rightarrow> stored_rule list \<Rightarrow> jsval \<Rightarrow> ValidationResult outcome" where
  "validate n h rules rule =
     (if \<not> isObject rule then Return (invalid ''The rule must be a valid JSON object.'' rule)
      else
        bind (normalize_conditions rule)
          (\<lambda>conditions.
             if length conditions = 0
                \<or> (isObject (hd conditions) \<and> length (object_keys (hd conditions)) = 0) then
               Return (invalid ''The conditions property must contain at least one condition.'' rule)
             else validateConditions (validateCondition n h rules) valid conditions))"

section \<open>Notions used to state the properties\<close>

text \<open>
  What the loop of \<^verbatim>\<open>_evaluateCondition\<close> obtains for one node when it does call
  the node's function: the node is resolved, classified and evaluated.
  \<open>Return None\<close> is a node that is neither a condition nor a constraint.
\<close>

definition evaluateNode ::
  "(jsval \<Rightarrow> jsval \<Rightarrow> bool outcome) \<Rightarrow> host \<Rightarrow> stored_rule list \<Rightarrow> jsval \<Rightarrow> jsval
     \<Rightarrow> bool option outcome" where
  "evaluateNode rec h rules node criteria =
     bind (resolve_node rules node)
       (\<lambda>node'. case dispatch rec h node' of
                   None \<Rightarrow> Return None
                 | Some fn \<Rightarrow> bind (fn criteria) (\<lambda>b. Return (Some b)))"

text \<open>How many of the keys \<^verbatim>\<open>any\<close>, \<^verbatim>\<open>all\<close>, \<^verbatim>\<open>none\<close> a value has.\<close>

definition branch_count :: "jsval \<Rightarrow> nat" where
  "branch_count x = length (filter (\<lambda>k. has_key k x) [''any'', ''all'', ''none''])"

text \<open>
  What the loop of \<^verbatim>\<open>_validateCondition\<close> obtains for one node: the node is resolved,
  classified and validated. \<open>Return None\<close> is a node that is neither a condition nor a
  constraint.
\<close>

definition validateNode ::
  "(jsval \<Rightarrow> nat \<Rightarrow> ValidationResult outcome) \<Rightarrow> host \<Rightarrow> stored_rule list \<Rightarrow> jsval \<Rightarrow> nat
     \<Rightarrow> ValidationResult option outcome" where
  "validateNode rec h rules node depth =
     bind (resolve_node rules node)
       (\<lambda>node'.
          if isCondition node' then bind (rec node' (depth + 1)) (\<lambda>r. Return (Some r))
          else if isConstraint node' then Return (Some (validateConstraint h node'))
          else Return None)"

text \<open>
  The nodes under the branch of a condition, the conditions among them (references
  resolved), and the conditions nested in a condition at any depth.
\<close>

definition branch_nodes :: "jsval \<Rightarrow> jsval list" where
  "branch_nodes c =
     (case conditionType c of Return (Some t) \<Rightarrow> array_elems (prop_of c t) | _ \<Rightarrow> [])"

definition child_conditions :: "stored_rule list \<Rightarrow> jsval \<Rightarrow> jsval list" where
  "child_conditions rules c =
     concat (map (\<lambda>node. case resolve_node rules node of
                            Return c' \<Rightarrow> (if isCondition c' then [c'] else [])
                          | _ \<Rightarrow> [])
               (branch_nodes c))"

inductive nested_in :: "stored_rule list \<Rightarrow> jsval \<Rightarrow> jsval \<Rightarrow> bool" for rules where
  child: "c' \<in> set (child_conditions rules c) \<Longrightarrow> nested_in rules c c'"
| deeper: "nested_in rules c c' \<Longrightarrow> c'' \<in> set (child_conditions rules c') \<Longrightarrow> nested_in rules c c''"

code_pred nested_in .

subsection \<open>Concrete inputs\<close>

text \<open>
  A host for the concrete examples: a pattern is a literal text and matches the subjects
  that contain it, the text \<^verbatim>\<open>(\<close> does not compile, and no string is numeric.
\<close>

definition example_host :: host where
  "example_host =
     \<lparr>regexp_valid = (\<lambda>p. p \<noteq> ''(''), regexp_test = (\<lambda>p s. is_substring p s),
      string_to_number = (\<lambda>s. None)\<rparr>"

definition constraint_of :: "string \<Rightarrow> string \<Rightarrow> jsval \<Rightarrow> jsval" where
  "constraint_of f opr v = JObj [(''field'', JStr f), (''operator'', JStr opr), (''value'', v)]"

definition rule_of :: "jsval \<Rightarrow> jsval" where
  "rule_of conditions = JObj [(''conditions'', conditions)]"

text \<open>The rule and the criteria of the README's basic example.\<close>

definition push_condition :: jsval where
  "push_condition = JObj [(''all'', JArr [constraint_of ''pushEnabled'' ''equals'' (JBool False)])]"

definition push_disabled :: jsval where
  "push_disabled = JObj [(''pushEnabled'', JBool False)]"

definition two_branches :: jsval where
  "two_branches = JObj [(''any'', JArr []), (''all'', JArr [])]"

text \<open>A condition of branch type \<^verbatim>\<open>none\<close>.\<close>

definition none_condition :: jsval where
  "none_condition = JObj [(''none'', JArr [constraint_of ''pushEnabled'' ''equals'' (JBool False)])]"

text \<open>
  Conditions with a nested condition among their nodes, and conditions with a node that
  is neither a condition nor a constraint.
\<close>

definition nested_all_condition :: jsval where
  "nested_all_condition =
     JObj [(''all'', JArr [push_condition, constraint_of ''pushEnabled'' ''equals'' (JBool False)])]"

definition nested_any_condition :: jsval where
  "nested_any_condition =
     JObj [(''any'', JArr [none_condition, constraint_of ''pushEnabled'' ''equals'' (JBool True)])]"

definition any_with_neither :: jsval where
  "any_with_neither =
     JObj [(''any'', JArr [constraint_of ''pushEnabled'' ''equals'' (JBool False), JNum 5])]"

definition none_with_neither :: jsval where
  "none_with_neither = JObj [(''none'', JArr [JNum 5])]"

text \<open>The rule of the README's second example.\<close>

definition signed_in_rule :: jsval where
  "signed_in_rule =
     rule_of (JObj [(''all'', JArr [constraint_of ''authenticated'' ''equals'' (JBool True),
                                    constraint_of ''gender'' ''equals'' (JNum 2)])])"

text \<open>A rule with one \<^verbatim>\<open>contains any\<close> constraint on the field \<^verbatim>\<open>tags\<close>.\<close>

definition tags_rule :: jsval where
  "tags_rule = rule_of (JObj [(''all'', JArr [constraint_of ''tags'' ''contains any'' (JArr [JStr ''a''])])])"

text \<open>A rule with two top-level conditions, the second with a \<^verbatim>\<open>result\<close> field.\<close>

definition two_conditions :: jsval where
  "two_conditions =
     rule_of (JArr [JObj [(''all'', JArr [constraint_of ''pushEnabled'' ''equals'' (JBool True)])],
                    JObj [(''any'', JArr [constraint_of ''pushEnabled'' ''equals'' (JBool False)]),
                          (''result'', JBool False)]])"

text \<open>
  Two rules whose first top-level condition fails validation: in the first the second
  condition fails too, with another error; in the second it is a reference to a rule
  that is not stored.
\<close>

definition two_failures :: jsval where
  "two_failures = rule_of (JArr [JObj [(''all'', JArr [JNum 5])], JObj [(''all'', JNum 1)]])"

definition failure_then_missing :: jsval where
  "failure_then_missing = rule_of (JArr [JObj [(''all'', JArr [JNum 5])], JStr ''missing''])"

text \<open>Rules with an empty branch, at the top and in a nested condition with a result.\<close>

definition empty_branch_rule :: jsval where
  "empty_branch_rule = rule_of (JObj [(''all'', JArr [])])"

definition nested_result :: jsval where
  "nested_result = JObj [(''any'', JArr []), (''result'', JBool True)]"

definition nested_result_rule :: jsval where
  "nested_result_rule = rule_of (JObj [(''all'', JArr [nested_result])])"

definition nested_result_nonempty :: jsval where
  "nested_result_nonempty =
     JObj [(''any'', JArr [constraint_of ''pushEnabled'' ''equals'' (JBool False)]),
           (''result'', JBool True)]"

definition nested_result_nonempty_rule :: jsval where
  "nested_result_nonempty_rule = rule_of (JObj [(''all'', JArr [nested_result_nonempty])])"

text \<open>
  Two rules with a reference to a rule that is not stored, and a condition with such a
  reference in a nested condition: the walk reaches the reference of the first rule and
  of the condition, and stops before the reference of the second rule.
\<close>

definition missing_reference_rule :: jsval where
  "missing_reference_rule =
     rule_of (JObj [(''all'', JArr [constraint_of ''pushEnabled'' ''equals'' (JBool False),
                                    JStr ''missing''])])"

definition nested_missing_reference :: jsval where
  "nested_missing_reference = JObj [(''all'', JArr [JObj [(''any'', JArr [JStr ''missing''])]])]"

definition unreached_reference_rule :: jsval where
  "unreached_reference_rule = rule_of (JObj [(''all'', JArr [JNum 5, JStr ''missing''])])"

section \<open>Basic facts\<close>

lemma bind_simps [simp]:
  "bind (Return x) f = f x" "bind (Throw e) f = Throw e" "bind OutOfFuel f = OutOfFuel"
  by (simp_all add: bind_def)

lemmas value_defs =
  constraint_of_def rule_of_def push_condition_def push_disabled_def two_branches_def

lemmas classifier_defs = isObject_def isCondition_def isConstraint_def

lemmas constraint_defs =
  checkConstraint_def resolve_field_def js_includes_def is_substring_def get_prop_def
  apply_operator_def

lemmas walk_defs =
  normalize_conditions_def get_prop_def resolve_node_def conditionType_def js_in_def
  is_array_def array_elems_def iterate_def dispatch_def Let_def

lemma evaluateNode_Some:
  "evaluateNode rec h rs node crit = Return (Some b) \<longleftrightarrow>
     (\<exists>node' fn. resolve_node rs node = Return node' \<and> dispatch rec h node' = Some fn
        \<and> fn crit = Return b)"
  by (auto simp: evaluateNode_def bind_def split: outcome.splits option.splits)

lemma conditionType_cases:
  "conditionType c = Return (Some t) \<Longrightarrow> t = ''any'' \<or> t = ''all'' \<or> t = ''none''"
  by (auto simp: conditionType_def bind_def split: outcome.splits if_splits)

lemma foldl_and: "foldl (\<lambda>acc x. acc \<and> P x) a xs = (a \<and> (\<forall>x\<in>set xs. P x))"
  by (induction xs arbitrary: a) auto

lemma foldl_or: "foldl (\<lambda>acc x. acc \<or> P x) a xs = (a \<or> (\<exists>x\<in>set xs. P x))"
  by (induction xs arbitrary: a) auto

section \<open>The scenarios of the specification\<close>

text \<open>
  The examples of the README and of the specification, on the model: a check that the
  definitions compute what the code computes there.
\<close>

lemma scenario_push:
  "evaluate (Suc 0) example_host [] (rule_of push_condition) push_disabled = Return (One True)"
  "evaluate (Suc 0) example_host [] (rule_of push_condition) (JObj [(''pushEnabled'', JBool True)])
     = Return (One False)"
  by (simp_all add: evaluate_def walk_defs classifier_defs constraint_defs value_defs)

lemma scenario_signed_in:
  "evaluate (Suc 0) example_host [] signed_in_rule
     (JObj [(''authenticated'', JBool True), (''gender'', JNum 2)]) = Return (One True)"
  "evaluate (Suc 0) example_host [] signed_in_rule
     (JObj [(''authenticated'', JBool True), (''gender'', JNum 1)]) = Return (One False)"
  by (simp_all add: evaluate_def walk_defs classifier_defs constraint_defs signed_in_rule_def
      value_defs)

lemma scenario_contains_any:
  "checkConstraint example_host (constraint_of ''tags'' ''contains any'' (JArr [JStr ''a'', JStr ''b'']))
     (JObj [(''tags'', JArr [JStr ''x'', JStr ''b''])]) = Return True"
  "checkConstraint example_host (constraint_of ''tags'' ''contains any'' (JArr [JStr ''a'', JStr ''b'']))
     (JObj [(''tags'', JArr [JStr ''x'', JStr ''y''])]) = Return False"
  by (simp_all add: constraint_defs is_array_def array_elems_def value_defs)

lemma scenario_two_branches:
  \<open>validate (Suc 0) example_host [] (rule_of two_branches)
     = Return (invalid ''A condition cannot have more than one "any", "all", or "none" property.''
                 two_branches)\<close>
  by (simp add: validate_def walk_defs classifier_defs isValidCondition_def valid_def merge_def
      invalid_def object_keys_def value_defs)

lemma scenario_nested_field:
  "checkConstraint example_host (constraint_of ''customer.profile.gender'' ''equals'' (JNum 1))
     (JObj [(''customer'', JObj [(''profile'', JObj [(''gender'', JNum 1)])])]) = Return True"
  "checkConstraint example_host (constraint_of ''customer.profile.gender'' ''equals'' (JNum 1))
     (JObj [(''customer'', JObj [])]) = Return False"
  by (simp_all add: constraint_defs resolveNestedProperty_def truthy_def value_defs)

section \<open>Condition evaluation\<close>

text \<open>
  The loop of \<^verbatim>\<open>_evaluateCondition\<close> when every node of the branch evaluates to a
  boolean: the running result after the loop, for each of the three branch types.
\<close>

lemma evaluateNodes_all:
  "\<forall>node\<in>set nodes. \<exists>b. evaluateNode rec h rs node crit = Return (Some b) \<Longrightarrow>
   evaluateNodes rec h rs ''all'' crit res nodes =
     Return (res \<and> (\<forall>node\<in>set nodes. evaluateNode rec h rs node crit = Return (Some True)))"
proof (induction nodes arbitrary: res)
  case Nil
  then show ?case by simp
next
  case (Cons node nodes)
  from Cons.prems obtain b where b: "evaluateNode rec h rs node crit = Return (Some b)" by auto
  then obtain node' fn where n: "resolve_node rs node = Return node'"
    "dispatch rec h node' = Some fn" "fn crit = Return b"
    by (auto simp: evaluateNode_Some)
  have rest: "\<forall>node\<in>set nodes. \<exists>b. evaluateNode rec h rs node crit = Return (Some b)"
    using Cons.prems by simp
  show ?case
    using n b Cons.IH [OF rest] by (cases res) auto
qed

lemma evaluateNodes_any:
  "\<forall>node\<in>set nodes. \<exists>b. evaluateNode rec h rs node crit = Return (Some b) \<Longrightarrow>
   evaluateNodes rec h rs ''any'' crit res nodes =
     Return (res \<or> (\<exists>node\<in>set nodes. evaluateNode rec h rs node crit = Return (Some True)))"
proof (induction nodes arbitrary: res)
  case Nil
  then show ?case by simp
next
  case (Cons node nodes)
  from Cons.prems obtain b where b: "evaluateNode rec h rs node crit = Return (Some b)" by auto
  then obtain node' fn where n: "resolve_node rs node = Return node'"
    "dispatch rec h node' = Some fn" "fn crit = Return b"
    by (auto simp: evaluateNode_Some)
  have rest: "\<forall>node\<in>set nodes. \<exists>b. evaluateNode rec h rs node crit = Return (Some b)"
    using Cons.prems by simp
  show ?case
    using n b Cons.IH [OF rest] by (cases res) auto
qed

lemma evaluateNodes_none:
  "\<forall>node\<in>set nodes. \<exists>b. evaluateNode rec h rs node crit = Return (Some b) \<Longrightarrow>
   evaluateNodes rec h rs ''none'' crit res nodes =
     Return (res \<and> \<not> (\<exists>node\<in>set nodes. evaluateNode rec h rs node crit = Return (Some True)))"
proof (induction nodes arbitrary: res)
  case Nil
  then show ?case by simp
next
  case (Cons node nodes)
  from Cons.prems obtain b where b: "evaluateNode rec h rs node crit = Return (Some b)" by auto
  then obtain node' fn where n: "resolve_node rs node = Return node'"
    "dispatch rec h node' = Some fn" "fn crit = Return b"
    by (auto simp: evaluateNode_Some)
  have rest: "\<forall>node\<in>set nodes. \<exists>b. evaluateNode rec h rs node crit = Return (Some b)"
    using Cons.prems by simp
  show ?case
    using n b Cons.IH [OF rest] by (cases res) auto
qed

text \<open>
  Without any assumption on the nodes: an \<^verbatim>\<open>all\<close> loop ends true exactly when every
  node evaluates to true, a \<^verbatim>\<open>none\<close> loop exactly when every node evaluates to
  false, and an \<^verbatim>\<open>any\<close> loop only when some node evaluates to true.
\<close>

lemma evaluateNodes_all_True:
  "evaluateNodes rec h rs ''all'' crit res nodes = Return True \<longleftrightarrow>
     res \<and> (\<forall>node\<in>set nodes. evaluateNode rec h rs node crit = Return (Some True))"
proof (induction nodes arbitrary: res)
  case Nil
  then show ?case by simp
next
  case (Cons node nodes)
  show ?case
    by (cases "resolve_node rs node")
       (auto simp: Cons.IH evaluateNode_def bind_def split: option.splits outcome.splits)
qed

lemma evaluateNodes_none_True:
  "evaluateNodes rec h rs ''none'' crit res nodes = Return True \<longleftrightarrow>
     res \<and> (\<forall>node\<in>set nodes. evaluateNode rec h rs node crit = Return (Some False))"
proof (induction nodes arbitrary: res)
  case Nil
  then show ?case by simp
next
  case (Cons node nodes)
  show ?case
    by (cases "resolve_node rs node")
       (auto simp: Cons.IH evaluateNode_def bind_def split: option.splits outcome.splits)
qed

lemma evaluateNodes_any_True:
  "evaluateNodes rec h rs ''any'' crit res nodes = Return True \<Longrightarrow>
     res \<or> (\<exists>node\<in>set nodes. evaluateNode rec h rs node crit = Return (Some True))"
proof (induction nodes arbitrary: res)
  case Nil
  then show ?case by simp
next
  case (Cons node nodes)
  show ?case
  proof (cases res)
    case True
    then show ?thesis by simp
  next
    case False
    from Cons.prems obtain node' where n: "resolve_node rs node = Return node'"
      by (cases "resolve_node rs node") simp_all
    with Cons.prems obtain fn where f: "dispatch rec h node' = Some fn"
      by (cases "dispatch rec h node'") simp_all
    with Cons.prems n False obtain b where b: "fn crit = Return b"
      and rest: "evaluateNodes rec h rs ''any'' crit b nodes = Return True"
      by (cases "fn crit") simp_all
    from Cons.IH [OF rest] n f b show ?thesis
      by (auto simp: evaluateNode_Some)
  qed
qed

lemma evaluateNodes_append:
  assumes "\<forall>y\<in>set pre. \<exists>b. evaluateNode rec h rs y crit = Return (Some b)"
    and "t = ''any'' \<or> t = ''all'' \<or> t = ''none''"
  shows "evaluateNodes rec h rs t crit res (pre @ rest) =
           evaluateNodes rec h rs t crit
             (if t = ''any'' then
                res \<or> (\<exists>y\<in>set pre. evaluateNode rec h rs y crit = Return (Some True))
              else if t = ''all'' then
                res \<and> (\<forall>y\<in>set pre. evaluateNode rec h rs y crit = Return (Some True))
              else res \<and> \<not> (\<exists>y\<in>set pre. evaluateNode rec h rs y crit = Return (Some True)))
             rest"
  using assms(1)
proof (induction pre arbitrary: res)
  case Nil
  then show ?case by simp
next
  case (Cons node nodes)
  from Cons.prems obtain b where b: "evaluateNode rec h rs node crit = Return (Some b)" by auto
  then obtain node' fn where n: "resolve_node rs node = Return node'"
    "dispatch rec h node' = Some fn" "fn crit = Return b"
    by (auto simp: evaluateNode_Some)
  have rest: "\<forall>node\<in>set nodes. \<exists>b. evaluateNode rec h rs node crit = Return (Some b)"
    using Cons.prems by simp
  from assms(2) consider "t = ''any''" | "t = ''all''" | "t = ''none''" by blast
  then show ?case
  proof cases
    case 1
    then show ?thesis using n b Cons.IH [OF rest] by (cases res) auto
  next
    case 2
    then show ?thesis using n b Cons.IH [OF rest] by (cases res) auto
  next
    case 3
    then show ?thesis using n b Cons.IH [OF rest] by (cases res) auto
  qed
qed

lemma evaluateNodes_neither:
  assumes "\<forall>y\<in>set pre. \<exists>b. evaluateNode rec h rs y crit = Return (Some b)"
    and "t = ''any'' \<or> t = ''all'' \<or> t = ''none''"
    and "evaluateNode rec h rs x crit = Return None"
  shows "evaluateNodes rec h rs t crit res (pre @ x # post) = Return False"
proof -
  from assms(3) obtain node' where "resolve_node rs x = Return node'" "dispatch rec h node' = None"
    by (auto simp: evaluateNode_def bind_def split: outcome.splits option.splits)
  then have "\<And>r. evaluateNodes rec h rs t crit r (x # post) = Return False" by simp
  then show ?thesis unfolding evaluateNodes_append [OF assms(1,2)] .
qed

lemma fold_of_boolean_nodes:
  assumes ty: "conditionType c = Return (Some t)"
    and ns: "iterate (prop_of c t) = Return nodes"
    and ch: "\<forall>node\<in>set nodes. \<exists>b.
               evaluateNode (evaluateCondition n h rs) h rs node crit = Return (Some b)"
  shows "evaluateCondition (Suc n) h rs c crit =
           Return (if t = ''all'' then
                     foldl (\<lambda>acc node. acc \<and>
                       evaluateNode (evaluateCondition n h rs) h rs node crit = Return (Some True))
                       True nodes
                   else if t = ''any'' then
                     foldl (\<lambda>acc node. acc \<or>
                       evaluateNode (evaluateCondition n h rs) h rs node crit = Return (Some True))
                       False nodes
                   else
                     foldl (\<lambda>acc node. acc \<and>
                       \<not> evaluateNode (evaluateCondition n h rs) h rs node crit = Return (Some True))
                       True nodes)
       \<and> (t = ''all'' \<longrightarrow> (evaluateCondition (Suc n) h rs c crit = Return True \<longleftrightarrow>
             (\<forall>node\<in>set nodes.
                evaluateNode (evaluateCondition n h rs) h rs node crit = Return (Some True))))
       \<and> (t = ''any'' \<longrightarrow> (evaluateCondition (Suc n) h rs c crit = Return True \<longleftrightarrow>
             (\<exists>node\<in>set nodes.
                evaluateNode (evaluateCondition n h rs) h rs node crit = Return (Some True))))
       \<and> (t = ''none'' \<longrightarrow> (evaluateCondition (Suc n) h rs c crit = Return True \<longleftrightarrow>
             \<not> (\<exists>node\<in>set nodes.
                evaluateNode (evaluateCondition n h rs) h rs node crit = Return (Some True))))"
proof -
  from conditionType_cases [OF ty] consider "t = ''any''" | "t = ''all''" | "t = ''none''"
    by blast
  then show ?thesis
  proof cases
    case 1
    then show ?thesis
      using ty ns evaluateNodes_any [OF ch, of False] by (simp add: foldl_or)
  next
    case 2
    then show ?thesis
      using ty ns evaluateNodes_all [OF ch, of True] by (simp add: foldl_and)
  next
    case 3
    then show ?thesis
      using ty ns evaluateNodes_none [OF ch, of True] by (simp add: foldl_and)
  qed
qed

lemma neither_node_gives_false:
  assumes ty: "conditionType c = Return (Some t)"
    and ns: "iterate (prop_of c t) = Return (pre @ x # post)"
    and ch: "\<forall>y\<in>set pre. \<exists>b.
               evaluateNode (evaluateCondition n h rs) h rs y crit = Return (Some b)"
    and x: "evaluateNode (evaluateCondition n h rs) h rs x crit = Return None"
  shows "evaluateCondition (Suc n) h rs c crit = Return False"
  using ty ns evaluateNodes_neither [OF ch conditionType_cases [OF ty] x] by simp

text \<open>
  C1, as the claim states it, fails on a condition with a node that is neither a
  condition nor a constraint: the loop returns false at that node. An \<^verbatim>\<open>any\<close>
  condition whose first node evaluates to true, followed by the number 5, gives false;
  a \<^verbatim>\<open>none\<close> condition whose only node is the number 5, so that no node evaluates
  to true, gives false.
\<close>

theorem neither_node_counterexample:
  "evaluateNode (evaluateCondition 0 example_host []) example_host []
     (constraint_of ''pushEnabled'' ''equals'' (JBool False)) push_disabled = Return (Some True)
   \<and> evaluateNode (evaluateCondition 0 example_host []) example_host [] (JNum 5) push_disabled
       = Return None
   \<and> evaluateCondition (Suc 0) example_host [] any_with_neither push_disabled = Return False
   \<and> evaluateCondition (Suc 0) example_host [] none_with_neither push_disabled = Return False"
  by (simp add: evaluateNode_def walk_defs classifier_defs constraint_defs
      any_with_neither_def none_with_neither_def value_defs)

text \<open>
  C1, amended. For a condition of branch type \<open>t\<close> over the nodes \<open>nodes\<close>: when every
  node, with its reference resolved, is a condition or a constraint whose evaluation
  returns a boolean, the condition returns the fold of its branch: for \<^verbatim>\<open>all\<close> the
  conjunction, seeded true, of the nodes' evaluations, so it holds iff every node holds;
  for \<^verbatim>\<open>any\<close> the disjunction, seeded false, so it holds iff at least one node
  holds; for \<^verbatim>\<open>none\<close> the conjunction, seeded true, of the negated evaluations, so
  it holds iff no node holds. And when a node is neither a condition nor a constraint,
  and the nodes before it evaluate to booleans, the condition returns false, whatever
  its branch type and the evaluations of the other nodes.
\<close>

theorem condition_fold_semantics:
  assumes ty: "conditionType c = Return (Some t)"
    and ns: "iterate (prop_of c t) = Return nodes"
  shows "((\<forall>node\<in>set nodes. \<exists>b.
             evaluateNode (evaluateCondition n h rs) h rs node crit = Return (Some b))
          \<longrightarrow> evaluateCondition (Suc n) h rs c crit =
                Return (if t = ''all'' then
                          foldl (\<lambda>acc node. acc \<and>
                            evaluateNode (evaluateCondition n h rs) h rs node crit
                              = Return (Some True))
                            True nodes
                        else if t = ''any'' then
                          foldl (\<lambda>acc node. acc \<or>
                            evaluateNode (evaluateCondition n h rs) h rs node crit
                              = Return (Some True))
                            False nodes
                        else
                          foldl (\<lambda>acc node. acc \<and>
                            \<not> evaluateNode (evaluateCondition n h rs) h rs node crit
                                = Return (Some True))
                            True nodes)
            \<and> (t = ''all'' \<longrightarrow> (evaluateCondition (Suc n) h rs c crit = Return True \<longleftrightarrow>
                  (\<forall>node\<in>set nodes.
                     evaluateNode (evaluateCondition n h rs) h rs node crit = Return (Some True))))
            \<and> (t = ''any'' \<longrightarrow> (evaluateCondition (Suc n) h rs c crit = Return True \<longleftrightarrow>
                  (\<exists>node\<in>set nodes.
                     evaluateNode (evaluateCondition n h rs) h rs node crit = Return (Some True))))
            \<and> (t = ''none'' \<longrightarrow> (evaluateCondition (Suc n) h rs c crit = Return True \<longleftrightarrow>
                  \<not> (\<exists>node\<in>set nodes.
                     evaluateNode (evaluateCondition n h rs) h rs node crit
                       = Return (Some True)))))
       \<and> (nodes = pre @ x # post
            \<and> (\<forall>y\<in>set pre. \<exists>b.
                  evaluateNode (evaluateCondition n h rs) h rs y crit = Return (Some b))
            \<and> evaluateNode (evaluateCondition n h rs) h rs x crit = Return None
          \<longrightarrow> evaluateCondition (Suc n) h rs c crit = Return False)"
  apply (rule conjI)
  subgoal by (rule impI) (rule fold_of_boolean_nodes [OF ty ns], assumption)
  subgoal using ty ns neither_node_gives_false by blast
  done

theorem condition_fold_semantics_witness:
  "evaluateCondition (Suc (Suc 0)) example_host [] nested_all_condition push_disabled = Return True
   \<and> evaluateCondition (Suc (Suc 0)) example_host [] nested_any_condition push_disabled
       = Return False
   \<and> evaluateCondition (Suc 0) example_host [] none_condition push_disabled = Return False
   \<and> evaluateCondition (Suc 0) example_host [] any_with_neither push_disabled = Return False"
proof -
  let ?on = "constraint_of ''pushEnabled'' ''equals'' (JBool True)"
  let ?off = "constraint_of ''pushEnabled'' ''equals'' (JBool False)"
  let ?ev0 = "\<lambda>node. evaluateNode (evaluateCondition 0 example_host []) example_host [] node
                       push_disabled"
  let ?ev1 = "\<lambda>node. evaluateNode (evaluateCondition (Suc 0) example_host []) example_host [] node
                       push_disabled"
  have on0: "?ev0 ?on = Return (Some False)" and off0: "?ev0 ?off = Return (Some True)"
    and bad0: "?ev0 (JNum 5) = Return None"
    and on1: "?ev1 ?on = Return (Some False)" and off1: "?ev1 ?off = Return (Some True)"
    by (simp_all add: evaluateNode_def resolve_node_def dispatch_def classifier_defs
        constraint_defs value_defs)
  have sub1: "?ev1 push_condition = Return (Some True)"
    and sub2: "?ev1 none_condition = Return (Some False)"
    by (simp_all add: evaluateNode_def walk_defs classifier_defs constraint_defs
        none_condition_def value_defs)
  have ty: "conditionType nested_all_condition = Return (Some ''all'')"
    "conditionType nested_any_condition = Return (Some ''any'')"
    "conditionType none_condition = Return (Some ''none'')"
    "conditionType any_with_neither = Return (Some ''any'')"
    by (simp_all add: conditionType_def js_in_def nested_all_condition_def
        nested_any_condition_def none_condition_def any_with_neither_def)
  have ns: "iterate (prop_of nested_all_condition ''all'') = Return [push_condition, ?off]"
    "iterate (prop_of nested_any_condition ''any'') = Return [none_condition, ?on]"
    "iterate (prop_of none_condition ''none'') = Return [?off]"
    "iterate (prop_of any_with_neither ''any'') = Return [?off, JNum 5]"
    by (simp_all add: iterate_def nested_all_condition_def nested_any_condition_def
        none_condition_def any_with_neither_def)
  have ch1: "\<forall>node\<in>set [push_condition, ?off]. \<exists>b. ?ev1 node = Return (Some b)"
    using sub1 off1 by auto
  have ch2: "\<forall>node\<in>set [none_condition, ?on]. \<exists>b. ?ev1 node = Return (Some b)"
    using sub2 on1 by auto
  have ch3: "\<forall>node\<in>set [?off]. \<exists>b. ?ev0 node = Return (Some b)"
    using off0 by auto
  have h4: "[?off, JNum 5] = [?off] @ JNum 5 # []
            \<and> (\<forall>y\<in>set [?off]. \<exists>b. ?ev0 y = Return (Some b))
            \<and> ?ev0 (JNum 5) = Return None"
    using off0 bad0 by auto
  have a: "evaluateCondition (Suc (Suc 0)) example_host [] nested_all_condition push_disabled
             = Return True"
    using condition_fold_semantics [OF ty(1) ns(1), THEN conjunct1, THEN mp, OF ch1,
        THEN conjunct1] sub1 off1
    by (simp del: evaluateCondition.simps)
  have b: "evaluateCondition (Suc (Suc 0)) example_host [] nested_any_condition push_disabled
             = Return False"
    using condition_fold_semantics [OF ty(2) ns(2), THEN conjunct1, THEN mp, OF ch2,
        THEN conjunct1] sub2 on1
    by (simp del: evaluateCondition.simps)
  have c: "evaluateCondition (Suc 0) example_host [] none_condition push_disabled = Return False"
    using condition_fold_semantics [OF ty(3) ns(3), THEN conjunct1, THEN mp, OF ch3,
        THEN conjunct1] off0
    by (simp del: evaluateCondition.simps)
  have d: "evaluateCondition (Suc 0) example_host [] any_with_neither push_disabled
             = Return False"
    using condition_fold_semantics [OF ty(4) ns(4), THEN conjunct2, THEN mp, OF h4] .
  from a b c d show ?thesis by simp
qed

section \<open>Constraints\<close>

lemma checkConstraint_absent:
  "resolve_field (prop_of k ''field'') crit = Return JUndefined \<Longrightarrow>
   checkConstraint h k crit = Return False"
  by (simp add: checkConstraint_def)

text \<open>
  C3. A constraint with the operator \<^verbatim>\<open>does not exist\<close> on a field that the criteria
  do not have: the field resolves to the absent value, \<^verbatim>\<open>_checkConstraint\<close> returns
  false at its guard, and the operator's own check, \<^verbatim>\<open>empty(criterion)\<close>, which holds
  of the absent value, is never reached.
\<close>

theorem does_not_exist_on_absent_field:
  "resolve_field (prop_of (constraint_of ''a'' ''does not exist'' JNull) ''field'') (JObj [])
     = Return JUndefined
   \<and> checkConstraint h (constraint_of ''a'' ''does not exist'' JNull) (JObj []) = Return False
   \<and> apply_operator h (JStr ''does not exist'') JUndefined JNull = Return True"
  by (simp add: constraint_defs empty_def value_defs)

theorem does_not_exist_on_absent_field_witness:
  "checkConstraint example_host (constraint_of ''a'' ''does not exist'' JNull) (JObj [])
     = Return False
   \<and> apply_operator example_host (JStr ''does not exist'') JUndefined JNull = Return True"
  using does_not_exist_on_absent_field [of example_host] by simp

lemma regexp_source_defined: "c \<noteq> JUndefined \<Longrightarrow> regexp_source c = to_string c"
  by (simp add: regexp_source_def)

text \<open>
  C9. When the field of a constraint resolves to a defined criterion, the operators
  \<^verbatim>\<open>matches\<close> and \<^verbatim>\<open>does not match\<close> take the criterion as the source of the
  pattern and the string form of the constraint's value as the subject: the result is
  whether that pattern matches (or does not match) that subject, and the call throws
  when the criterion does not compile as a pattern.
\<close>

theorem matches_pattern_from_criterion:
  assumes "resolve_field (prop_of k ''field'') crit = Return c" and "c \<noteq> JUndefined"
  shows "(prop_of k ''operator'' = JStr ''matches'' \<longrightarrow>
            checkConstraint h k crit =
              (if regexp_valid h (to_string c)
               then Return (regexp_test h (to_string c) (to_string (prop_of k ''value'')))
               else Throw SyntaxError))
       \<and> (prop_of k ''operator'' = JStr ''does not match'' \<longrightarrow>
            checkConstraint h k crit =
              (if regexp_valid h (to_string c)
               then Return (\<not> regexp_test h (to_string c) (to_string (prop_of k ''value'')))
               else Throw SyntaxError))"
  using assms
  by (auto simp: checkConstraint_def apply_operator_def new_regexp_test_def regexp_source_defined)

theorem matches_pattern_from_criterion_witness:
  "resolve_field (prop_of (constraint_of ''p'' ''matches'' (JStr ''hello'')) ''field'')
     (JObj [(''p'', JStr ''ell'')]) = Return (JStr ''ell'')
   \<and> checkConstraint example_host (constraint_of ''p'' ''matches'' (JStr ''hello''))
       (JObj [(''p'', JStr ''ell'')]) = Return True
   \<and> checkConstraint example_host (constraint_of ''p'' ''does not match'' (JStr ''hello''))
       (JObj [(''p'', JStr ''ell'')]) = Return False
   \<and> checkConstraint example_host (constraint_of ''p'' ''matches'' (JStr ''ell''))
       (JObj [(''p'', JStr ''hello'')]) = Return False"
proof -
  have r: "\<And>opr v s. resolve_field (prop_of (constraint_of ''p'' opr v) ''field'')
             (JObj [(''p'', JStr s)]) = Return (JStr s)"
    by (simp add: resolve_field_def js_includes_def is_substring_def get_prop_def value_defs)
  have d: "\<And>s. JStr s \<noteq> JUndefined" by simp
  from matches_pattern_from_criterion
         [OF r [of "''matches''" "JStr ''hello''" "''ell''"] d, where h = example_host]
       matches_pattern_from_criterion
         [OF r [of "''does not match''" "JStr ''hello''" "''ell''"] d, where h = example_host]
       matches_pattern_from_criterion
         [OF r [of "''matches''" "JStr ''ell''" "''hello''"] d, where h = example_host]
       r
  show ?thesis by (simp add: example_host_def is_substring_def value_defs)
qed

section \<open>The classifier\<close>

text \<open>
  C8, as the claim states it, fails on an object with two of the keys:
  \<^verbatim>\<open>isCondition\<close> holds of it.
\<close>

theorem isCondition_exactly_one_counterexample:
  "\<not> (isCondition two_branches = (isObject two_branches \<and> branch_count two_branches = 1))"
  by (simp add: classifier_defs branch_count_def value_defs)

text \<open>
  C8, amended. \<^verbatim>\<open>isCondition(x)\<close> is true iff \<open>x\<close> is an object and at least one of
  the keys \<^verbatim>\<open>any\<close>, \<^verbatim>\<open>all\<close>, \<^verbatim>\<open>none\<close> is present in it.
\<close>

theorem isCondition_at_least_one:
  "isCondition x = (isObject x \<and> 1 \<le> branch_count x)"
  by (auto simp: isCondition_def branch_count_def)

theorem isCondition_at_least_one_witness:
  "isCondition two_branches \<and> branch_count two_branches = 2
   \<and> \<not> isCondition (JObj [(''field'', JStr ''a'')]) \<and> \<not> isCondition (JArr [])"
  using isCondition_at_least_one [of two_branches]
        isCondition_at_least_one [of "JObj [(''field'', JStr ''a'')]"]
        isCondition_at_least_one [of "JArr []"]
  by (simp add: isObject_def branch_count_def value_defs)

section \<open>The set operators\<close>

lemma some_includes_throws:
  "\<not> is_array c \<Longrightarrow> \<not> is_string c \<Longrightarrow> some_includes c (x # xs) = Throw TypeError"
  by (cases c) (simp_all add: js_includes_def is_array_def is_string_def)

text \<open>
  C10. On a criterion that is defined and not an array, \<^verbatim>\<open>contains\<close> returns
  false and \<^verbatim>\<open>not contains\<close> returns true, behind their \<^verbatim>\<open>Array.isArray\<close>
  guard. \<^verbatim>\<open>contains any\<close> and \<^verbatim>\<open>not contains any\<close> call
  \<^verbatim>\<open>criterion.includes\<close> unguarded: with a non-empty array as value, and a
  criterion that is neither an array nor a string, \<^verbatim>\<open>_checkConstraint\<close> throws a
  TypeError. The rule \<open>tags_rule\<close> passes validation, and its evaluation against
  criteria whose \<^verbatim>\<open>tags\<close> is a number throws.
\<close>

theorem set_operators_not_total:
  assumes "resolve_field (prop_of k ''field'') crit = Return c" and "c \<noteq> JUndefined"
    and "\<not> is_array c"
  shows "(prop_of k ''operator'' = JStr ''contains'' \<longrightarrow> checkConstraint h k crit = Return False)
       \<and> (prop_of k ''operator'' = JStr ''not contains'' \<longrightarrow> checkConstraint h k crit = Return True)
       \<and> (\<not> is_string c \<and> prop_of k ''value'' = JArr (x # xs)
            \<and> (prop_of k ''operator'' = JStr ''contains any''
                 \<or> prop_of k ''operator'' = JStr ''not contains any'')
            \<longrightarrow> checkConstraint h k crit = Throw TypeError)
       \<and> validate (Suc (Suc 0)) h [] tags_rule = Return valid
       \<and> evaluate (Suc (Suc 0)) h [] tags_rule (JObj [(''tags'', JNum 3)]) = Throw TypeError"
proof -
  have a: "prop_of k ''operator'' = JStr ''contains'' \<longrightarrow> checkConstraint h k crit = Return False"
    using assms by (simp add: checkConstraint_def apply_operator_def)
  have b: "prop_of k ''operator'' = JStr ''not contains'' \<longrightarrow> checkConstraint h k crit = Return True"
    using assms by (simp add: checkConstraint_def apply_operator_def)
  have c: "\<not> is_string c \<and> prop_of k ''value'' = JArr (x # xs)
            \<and> (prop_of k ''operator'' = JStr ''contains any''
                 \<or> prop_of k ''operator'' = JStr ''not contains any'')
            \<longrightarrow> checkConstraint h k crit = Throw TypeError"
  proof (intro impI, elim conjE)
    assume s: "\<not> is_string c" and v: "prop_of k ''value'' = JArr (x # xs)"
      and o: "prop_of k ''operator'' = JStr ''contains any''
                \<or> prop_of k ''operator'' = JStr ''not contains any''"
    have t: "some_includes c (x # xs) = Throw TypeError"
      using assms(3) s by (rule some_includes_throws)
    have "is_array (JArr (x # xs))" "array_elems (JArr (x # xs)) = x # xs"
      by (simp_all add: is_array_def array_elems_def)
    with t v o assms(1,2) show "checkConstraint h k crit = Throw TypeError"
      by (auto simp: checkConstraint_def apply_operator_def simp del: some_includes.simps)
  qed
  have d: "validate (Suc (Suc 0)) h [] tags_rule = Return valid"
    by (simp add: validate_def tags_rule_def value_defs classifier_defs normalize_conditions_def
        get_prop_def object_keys_def resolve_node_def isValidCondition_def valid_def
        conditionType_def js_in_def is_array_def array_elems_def validateConstraint_def
        is_string_def strings_include_def operators_def merge_def)
  have e: "evaluate (Suc (Suc 0)) h [] tags_rule (JObj [(''tags'', JNum 3)]) = Throw TypeError"
    by (simp add: evaluate_def tags_rule_def value_defs classifier_defs normalize_conditions_def
        resolve_node_def conditionType_def js_in_def is_array_def array_elems_def iterate_def
        dispatch_def constraint_defs)
  from a b c d e show ?thesis by blast
qed

theorem set_operators_not_total_witness:
  "checkConstraint example_host (constraint_of ''tags'' ''contains'' (JStr ''a''))
     (JObj [(''tags'', JNum 3)]) = Return False
   \<and> checkConstraint example_host (constraint_of ''tags'' ''not contains'' (JStr ''a''))
       (JObj [(''tags'', JNum 3)]) = Return True
   \<and> checkConstraint example_host (constraint_of ''tags'' ''contains any'' (JArr [JStr ''a'']))
       (JObj [(''tags'', JNum 3)]) = Throw TypeError
   \<and> checkConstraint example_host (constraint_of ''tags'' ''not contains any'' (JArr [JStr ''a'']))
       (JObj [(''tags'', JNum 3)]) = Throw TypeError
   \<and> validate (Suc (Suc 0)) example_host [] tags_rule = Return valid
   \<and> evaluate (Suc (Suc 0)) example_host [] tags_rule (JObj [(''tags'', JNum 3)]) = Throw TypeError"
proof -
  have r: "\<And>opr v. resolve_field (prop_of (constraint_of ''tags'' opr v) ''field'')
             (JObj [(''tags'', JNum 3)]) = Return (JNum 3)"
    by (simp add: resolve_field_def js_includes_def is_substring_def get_prop_def value_defs)
  have d: "JNum 3 \<noteq> JUndefined" by simp
  have na: "\<not> is_array (JNum 3)" by (simp add: is_array_def)
  have ns: "\<not> is_string (JNum 3)" by (simp add: is_string_def)
  from set_operators_not_total [OF r [of "''contains''" "JStr ''a''"] d na, where h = example_host]
       set_operators_not_total [OF r [of "''not contains''" "JStr ''a''"] d na, where h = example_host]
       set_operators_not_total [OF r [of "''contains any''" "JArr [JStr ''a'']"] d na,
         where h = example_host and x = "JStr ''a''" and xs = "[]"]
       set_operators_not_total [OF r [of "''not contains any''" "JArr [JStr ''a'']"] d na,
         where h = example_host and x = "JStr ''a''" and xs = "[]"]
       ns
  show ?thesis by (simp add: value_defs)
qed

section \<open>Rule evaluation\<close>

lemma evaluateRule_none:
  "\<forall>x\<in>set cs. evaluateCondition n h rs x crit = Return False \<Longrightarrow>
   evaluateRule n h rs cs crit = Return False"
  by (induction cs) simp_all

lemma evaluateRule_first:
  "\<forall>x\<in>set pre. evaluateCondition n h rs x crit = Return False \<Longrightarrow>
   evaluateCondition n h rs c crit = Return True \<Longrightarrow>
   evaluateRule n h rs (pre @ c # post) crit
     = Return (case prop_of c ''result'' of JBool b \<Rightarrow> b | _ \<Rightarrow> True)"
  by (induction pre) (simp_all split: jsval.splits)

lemma evaluate_single:
  "rule \<noteq> JUndefined \<Longrightarrow> rule \<noteq> JNull \<Longrightarrow> \<not> is_array crit \<Longrightarrow>
   evaluate n h rs rule crit =
     bind (evaluateRule n h rs (case prop_of rule ''conditions'' of JArr xs \<Rightarrow> xs | v \<Rightarrow> [v]) crit)
       (\<lambda>b. Return (One b))"
  by (cases crit; cases "prop_of rule ''conditions''")
     (simp_all add: evaluate_def normalize_conditions_def get_prop_def is_array_def)

text \<open>
  C2. For a rule and one criteria record, \<^verbatim>\<open>evaluate\<close> takes \<^verbatim>\<open>rule.conditions\<close>
  as a sequence (a lone condition as the sequence of that condition) and tries the
  top-level conditions in order: when a condition holds and those before it do not,
  the result is that condition's \<^verbatim>\<open>result\<close> field if it is a boolean, else true;
  when no top-level condition holds, the result is false.
\<close>

theorem evaluate_first_satisfied:
  assumes "rule \<noteq> JUndefined" and "rule \<noteq> JNull" and "\<not> is_array crit"
    and "conds = (case prop_of rule ''conditions'' of JArr xs \<Rightarrow> xs | v \<Rightarrow> [v])"
  shows "(conds = pre @ c # post
            \<and> (\<forall>x\<in>set pre. evaluateCondition n h rs x crit = Return False)
            \<and> evaluateCondition n h rs c crit = Return True
          \<longrightarrow> evaluate n h rs rule crit
                = Return (One (case prop_of c ''result'' of JBool b \<Rightarrow> b | _ \<Rightarrow> True)))
       \<and> ((\<forall>x\<in>set conds. evaluateCondition n h rs x crit = Return False)
          \<longrightarrow> evaluate n h rs rule crit = Return (One False))"
  using assms evaluate_single [of rule crit n h rs]
  by (auto simp: evaluateRule_first evaluateRule_none simp del: evaluateRule.simps)

theorem evaluate_first_satisfied_witness:
  "evaluate (Suc 0) example_host [] two_conditions push_disabled = Return (One False)
   \<and> evaluate (Suc 0) example_host [] (rule_of push_condition) push_disabled = Return (One True)
   \<and> evaluate (Suc 0) example_host [] (rule_of push_condition) (JObj [(''pushEnabled'', JBool True)])
       = Return (One False)"
proof -
  let ?c1 = "JObj [(''all'', JArr [constraint_of ''pushEnabled'' ''equals'' (JBool True)])]"
  let ?c2 = "JObj [(''any'', JArr [constraint_of ''pushEnabled'' ''equals'' (JBool False)]),
                   (''result'', JBool False)]"
  let ?on = "JObj [(''pushEnabled'', JBool True)]"
  have obj: "\<And>r. rule_of r \<noteq> JUndefined" "\<And>r. rule_of r \<noteq> JNull"
    "\<not> is_array push_disabled" "\<not> is_array ?on"
    by (simp_all add: is_array_def value_defs)
  have n1: "[?c1, ?c2] = (case prop_of two_conditions ''conditions'' of JArr xs \<Rightarrow> xs | v \<Rightarrow> [v])"
    by (simp add: two_conditions_def value_defs)
  have n2: "[push_condition]
              = (case prop_of (rule_of push_condition) ''conditions'' of JArr xs \<Rightarrow> xs | v \<Rightarrow> [v])"
    by (simp add: value_defs)
  have e1: "evaluateCondition (Suc 0) example_host [] ?c1 push_disabled = Return False"
    by (simp add: walk_defs classifier_defs constraint_defs value_defs)
  have e2: "evaluateCondition (Suc 0) example_host [] ?c2 push_disabled = Return True"
    by (simp add: walk_defs classifier_defs constraint_defs value_defs)
  have e3: "evaluateCondition (Suc 0) example_host [] push_condition push_disabled = Return True"
    by (simp add: walk_defs classifier_defs constraint_defs value_defs)
  have e4: "evaluateCondition (Suc 0) example_host [] push_condition ?on = Return False"
    by (simp add: walk_defs classifier_defs constraint_defs value_defs)
  have h1: "[?c1, ?c2] = [?c1] @ ?c2 # []
            \<and> (\<forall>x\<in>set [?c1]. evaluateCondition (Suc 0) example_host [] x push_disabled = Return False)
            \<and> evaluateCondition (Suc 0) example_host [] ?c2 push_disabled = Return True"
    using e1 e2 by simp
  have h2: "[push_condition] = [] @ push_condition # []
            \<and> (\<forall>x\<in>set []. evaluateCondition (Suc 0) example_host [] x push_disabled = Return False)
            \<and> evaluateCondition (Suc 0) example_host [] push_condition push_disabled = Return True"
    using e3 by simp
  have h3: "\<forall>x\<in>set [push_condition].
              evaluateCondition (Suc 0) example_host [] x ?on = Return False"
    using e4 by simp
  have a: "evaluate (Suc 0) example_host [] two_conditions push_disabled = Return (One False)"
    using evaluate_first_satisfied [OF obj(1) obj(2) obj(3) n1 [unfolded two_conditions_def],
        THEN conjunct1, THEN mp, OF h1]
    by (simp add: two_conditions_def)
  have b: "evaluate (Suc 0) example_host [] (rule_of push_condition) push_disabled
             = Return (One True)"
    using evaluate_first_satisfied [OF obj(1) obj(2) obj(3) n2, THEN conjunct1, THEN mp, OF h2]
    by (simp add: push_condition_def)
  have c: "evaluate (Suc 0) example_host [] (rule_of push_condition) ?on = Return (One False)"
    using evaluate_first_satisfied [OF obj(1) obj(2) obj(4) n2, THEN conjunct2, THEN mp, OF h3]
    by simp
  from a b c show ?thesis by simp
qed

section \<open>Validation of the top-level conditions\<close>

lemma foldl_merge:
  "foldl merge res subs =
     \<lparr>isValid = isValid res \<and> (\<forall>r\<in>set subs. isValid r),
      error = (case error res of Some e \<Rightarrow> Some e
               | None \<Rightarrow> (case List.map_filter error subs of [] \<Rightarrow> None | e # _ \<Rightarrow> Some e))\<rparr>"
proof (induction subs arbitrary: res)
  case Nil
  then show ?case by (simp add: List.map_filter_simps split: option.splits)
next
  case (Cons r subs)
  have "foldl merge res (r # subs) = foldl merge (merge res r) subs" by simp
  also have "\<dots> =
     \<lparr>isValid = isValid (merge res r) \<and> (\<forall>r\<in>set subs. isValid r),
      error = (case error (merge res r) of Some e \<Rightarrow> Some e
               | None \<Rightarrow> (case List.map_filter error subs of [] \<Rightarrow> None | e # _ \<Rightarrow> Some e))\<rparr>"
    by (rule Cons.IH)
  also have "\<dots> =
     \<lparr>isValid = isValid res \<and> (\<forall>r\<in>set (r # subs). isValid r),
      error = (case error res of Some e \<Rightarrow> Some e
               | None \<Rightarrow> (case List.map_filter error (r # subs) of [] \<Rightarrow> None
                          | e # _ \<Rightarrow> Some e))\<rparr>"
    by (auto simp: merge_def List.map_filter_simps split: option.splits)
  finally show ?case .
qed

lemma validateConditions_returns:
  "list_all2 (\<lambda>c r. rec c 0 = Return r) conds subs \<Longrightarrow>
   validateConditions rec res conds = Return (foldl merge res subs)"
  by (induction conds subs arbitrary: res rule: list_all2_induct) simp_all

lemma validateConditions_throws:
  "\<forall>x\<in>set pre. \<exists>r. rec x 0 = Return r \<Longrightarrow> rec c 0 = Throw e \<Longrightarrow>
   validateConditions rec res (pre @ c # post) = Throw e"
  by (induction pre arbitrary: res) auto

lemma validate_walks:
  "isObject rule \<Longrightarrow> normalize_conditions rule = Return conds \<Longrightarrow> conds \<noteq> [] \<Longrightarrow>
   \<not> (isObject (hd conds) \<and> object_keys (hd conds) = []) \<Longrightarrow>
   validate n h rs rule = validateConditions (validateCondition n h rs) valid conds"
  by (auto simp: validate_def)

text \<open>
  C7. For a rule that passes the two entry checks of \<^verbatim>\<open>validate\<close> (the rule is an
  object, and its conditions are a non-empty sequence that does not start with an empty
  object), every top-level condition is validated, also after one of them has failed:
  when the validations of the top-level conditions return the results \<open>subs\<close>, the
  result of \<^verbatim>\<open>validate\<close> has as \<^verbatim>\<open>isValid\<close> the conjunction of theirs and as
  \<^verbatim>\<open>error\<close> the first error among them; and an exception thrown by the validation of
  a condition is thrown by \<^verbatim>\<open>validate\<close>, whatever the results of the conditions
  before it.
\<close>

theorem validate_visits_every_condition:
  assumes "isObject rule" and "normalize_conditions rule = Return conds" and "conds \<noteq> []"
    and "\<not> (isObject (hd conds) \<and> object_keys (hd conds) = [])"
  shows "(list_all2 (\<lambda>c r. validateCondition n h rs c 0 = Return r) conds subs
          \<longrightarrow> validate n h rs rule =
                Return \<lparr>isValid = (\<forall>r\<in>set subs. isValid r),
                        error = (case List.map_filter error subs of [] \<Rightarrow> None
                                 | e # _ \<Rightarrow> Some e)\<rparr>)
       \<and> (conds = pre @ c # post
            \<and> (\<forall>x\<in>set pre. \<exists>r. validateCondition n h rs x 0 = Return r)
            \<and> validateCondition n h rs c 0 = Throw e
          \<longrightarrow> validate n h rs rule = Throw e)"
  using validate_walks [OF assms, of n h rs]
  by (auto simp: validateConditions_returns validateConditions_throws foldl_merge valid_def)

theorem validate_visits_every_condition_witness:
  "validate (Suc 0) example_host [] two_failures
     = Return (invalid ''Each node should be a condition or constraint.'' (JNum 5))
   \<and> validate (Suc 0) example_host [] failure_then_missing
       = Throw (Error (lookup_message ''missing''))"
proof -
  let ?c1 = "JObj [(''all'', JArr [JNum 5])]"
  let ?c2 = "JObj [(''all'', JNum 1)]"
  let ?r1 = "invalid ''Each node should be a condition or constraint.'' (JNum 5)"
  let ?r2 = "invalid (not_iterable_message ''all'') ?c2"
  have s1: "validateCondition (Suc 0) example_host [] ?c1 0 = Return ?r1"
    by (simp add: walk_defs classifier_defs isValidCondition_def valid_def)
  have s2: "validateCondition (Suc 0) example_host [] ?c2 0 = Return ?r2"
    by (simp add: walk_defs classifier_defs isValidCondition_def valid_def)
  have s3: "validateCondition (Suc 0) example_host [] (JStr ''missing'') 0
              = Throw (Error (lookup_message ''missing''))"
    by (simp add: resolve_node_def getById_def)
  have o1: "isObject two_failures" and o2: "isObject failure_then_missing"
    by (simp_all add: isObject_def two_failures_def failure_then_missing_def value_defs)
  have n1: "normalize_conditions two_failures = Return [?c1, ?c2]"
    by (simp add: normalize_conditions_def get_prop_def two_failures_def value_defs)
  have n2: "normalize_conditions failure_then_missing = Return [?c1, JStr ''missing'']"
    by (simp add: normalize_conditions_def get_prop_def failure_then_missing_def value_defs)
  have ne: "[?c1, ?c2] \<noteq> []" "[?c1, JStr ''missing''] \<noteq> []" by simp_all
  have k1: "\<not> (isObject (hd [?c1, ?c2]) \<and> object_keys (hd [?c1, ?c2]) = [])"
    by (simp add: object_keys_def)
  have k2: "\<not> (isObject (hd [?c1, JStr ''missing'']) \<and> object_keys (hd [?c1, JStr ''missing'']) = [])"
    by (simp add: object_keys_def)
  have h1: "list_all2 (\<lambda>c r. validateCondition (Suc 0) example_host [] c 0 = Return r)
              [?c1, ?c2] [?r1, ?r2]"
    using s1 s2 by simp
  have h2: "[?c1, JStr ''missing''] = [?c1] @ JStr ''missing'' # []
            \<and> (\<forall>x\<in>set [?c1]. \<exists>r. validateCondition (Suc 0) example_host [] x 0 = Return r)
            \<and> validateCondition (Suc 0) example_host [] (JStr ''missing'') 0
                = Throw (Error (lookup_message ''missing''))"
    using s1 s3 by simp
  have a: "validate (Suc 0) example_host [] two_failures = Return ?r1"
    using validate_visits_every_condition [OF o1 n1 ne(1) k1, THEN conjunct1, THEN mp, OF h1]
    by (simp add: invalid_def List.map_filter_simps)
  have b: "validate (Suc 0) example_host [] failure_then_missing
             = Throw (Error (lookup_message ''missing''))"
    using validate_visits_every_condition [OF o2 n2 ne(2) k2, THEN conjunct2, THEN mp, OF h2]
    by simp
  from a b show ?thesis by simp
qed

section \<open>Rules that validation accepts\<close>

lemma validateConditions_valid:
  "validateConditions rec res conds = Return r \<Longrightarrow> isValid r \<Longrightarrow>
   isValid res \<and> (\<forall>c\<in>set conds. \<exists>r'. rec c 0 = Return r' \<and> isValid r')"
proof (induction conds arbitrary: res)
  case Nil
  then show ?case by simp
next
  case (Cons c conds)
  from Cons.prems(1) obtain sub where sub: "rec c 0 = Return sub"
    and rest: "validateConditions rec (merge res sub) conds = Return r"
    by (cases "rec c 0") simp_all
  from Cons.IH [OF rest Cons.prems(2)] sub show ?case
    by (auto simp: merge_def)
qed

lemma validateNode_Some:
  "validateNode rec h rs node d = Return (Some r) \<longleftrightarrow>
     (\<exists>node'. resolve_node rs node = Return node'
        \<and> (if isCondition node' then rec node' (d + 1) = Return r
            else isConstraint node' \<and> r = validateConstraint h node'))"
  by (auto simp: validateNode_def bind_def split: outcome.splits)

lemma validateNodes_valid:
  "validateNodes rec h rs c d res nodes = Return r \<Longrightarrow> isValid r \<Longrightarrow>
   isValid res \<and> (nodes \<noteq> [] \<longrightarrow> \<not> (0 < d \<and> has_key ''result'' c))
     \<and> (\<forall>node\<in>set nodes. \<exists>r'. validateNode rec h rs node d = Return (Some r') \<and> isValid r')"
proof (induction nodes arbitrary: res)
  case Nil
  then show ?case by simp
next
  case (Cons node nodes)
  from Cons.prems(1) obtain node' where n: "resolve_node rs node = Return node'"
    by (cases "resolve_node rs node") simp_all
  show ?case
  proof (cases "isCondition node'")
    case True
    with Cons.prems(1) n obtain sub where sub: "rec node' (d + 1) = Return sub"
      by (cases "rec node' (d + 1)") simp_all
    from Cons.prems n True sub have g: "\<not> (0 < d \<and> has_key ''result'' c)"
      and v: "isValid (merge res sub)"
      and rest: "validateNodes rec h rs c d (merge res sub) nodes = Return r"
      by (auto simp: invalid_def split: if_splits)
    from Cons.IH [OF rest Cons.prems(2)] g v n True sub show ?thesis
      by (auto simp: merge_def validateNode_Some)
  next
    case False
    from Cons.prems n False have k: "isConstraint node'"
      by (auto simp: invalid_def split: if_splits)
    from Cons.prems n False k have g: "\<not> (0 < d \<and> has_key ''result'' c)"
      and v: "isValid (merge res (validateConstraint h node'))"
      and rest: "validateNodes rec h rs c d (merge res (validateConstraint h node')) nodes = Return r"
      by (auto simp: invalid_def split: if_splits)
    from Cons.IH [OF rest Cons.prems(2)] g v n False k show ?thesis
      by (auto simp: merge_def validateNode_Some)
  qed
qed

lemma isCondition_type:
  "isCondition c \<Longrightarrow> \<exists>t. conditionType c = Return (Some t)"
  by (cases c) (auto simp: classifier_defs conditionType_def js_in_def)

lemma isCondition_resolved: "isCondition c \<Longrightarrow> resolve_node rs c = Return c"
  by (cases c) (simp_all add: classifier_defs resolve_node_def)

lemma isValidCondition_isCondition: "isValid (isValidCondition c) \<Longrightarrow> isCondition c"
  by (auto simp: isValidCondition_def invalid_def split: if_splits)

lemma validateCondition_valid:
  assumes "validateCondition m h rs c d = Return r" and "isValid r"
  shows "\<exists>n c'. m = Suc n \<and> resolve_node rs c = Return c' \<and> isCondition c'
           \<and> validateNodes (validateCondition n h rs) h rs c' d (isValidCondition c')
                (branch_nodes c') = Return r"
proof (cases m)
  case 0
  with assms show ?thesis by simp
next
  case (Suc n)
  from assms(1) Suc obtain c' where c': "resolve_node rs c = Return c'"
    by (cases "resolve_node rs c") simp_all
  from assms c' Suc have v: "isValid (isValidCondition c')"
    by (auto simp: Let_def split: if_splits)
  then have ic: "isCondition c'" by (rule isValidCondition_isCondition)
  then obtain t where t: "conditionType c' = Return (Some t)"
    using isCondition_type by blast
  from assms c' Suc v t have "is_array (prop_of c' t)"
    by (auto simp: Let_def invalid_def split: if_splits)
  with assms c' Suc v t
  have "validateNodes (validateCondition n h rs) h rs c' d (isValidCondition c')
          (array_elems (prop_of c' t)) = Return r"
    by (simp add: Let_def)
  with Suc c' ic t show ?thesis by (simp add: branch_nodes_def)
qed

lemma child_conditions_iff:
  "c' \<in> set (child_conditions rs c) \<longleftrightarrow>
     (\<exists>node\<in>set (branch_nodes c). resolve_node rs node = Return c' \<and> isCondition c')"
proof
  assume "c' \<in> set (child_conditions rs c)"
  then show "\<exists>node\<in>set (branch_nodes c). resolve_node rs node = Return c' \<and> isCondition c'"
    by (auto simp: child_conditions_def split: outcome.splits if_splits)
next
  assume "\<exists>node\<in>set (branch_nodes c). resolve_node rs node = Return c' \<and> isCondition c'"
  then obtain node where "node \<in> set (branch_nodes c)" "resolve_node rs node = Return c'"
    "isCondition c'" by blast
  then show "c' \<in> set (child_conditions rs c)"
    by (force simp: child_conditions_def)
qed

lemma valid_child:
  assumes "validateCondition m h rs c d = Return r" and "isValid r" and "isCondition c"
    and "c' \<in> set (child_conditions rs c)"
  shows "\<exists>m' r'. validateCondition m' h rs c' (d + 1) = Return r' \<and> isValid r'"
proof -
  from validateCondition_valid [OF assms(1,2)] isCondition_resolved [OF assms(3), of rs]
  obtain n where
    w: "validateNodes (validateCondition n h rs) h rs c d (isValidCondition c) (branch_nodes c)
          = Return r"
    by auto
  from assms(4) obtain node where node: "node \<in> set (branch_nodes c)"
    "resolve_node rs node = Return c'" "isCondition c'"
    by (auto simp: child_conditions_iff)
  from validateNodes_valid [OF w assms(2)] node(1)
  obtain r' where "validateNode (validateCondition n h rs) h rs node d = Return (Some r')"
    "isValid r'" by blast
  with node(2,3) have "validateCondition n h rs c' (d + 1) = Return r'" "isValid r'"
    by (auto simp: validateNode_Some)
  then show ?thesis by blast
qed

lemma valid_nested:
  assumes "nested_in rs c0 c" and "validateCondition m h rs c0 0 = Return r" and "isValid r"
    and "isCondition c0"
  shows "isCondition c \<and> (\<exists>m' d r'. 0 < d \<and> validateCondition m' h rs c d = Return r' \<and> isValid r')"
  using assms
proof (induction rule: nested_in.induct)
  case (child c' c)
  from valid_child [OF child(2,3,4,1)] child(1) show ?case
    by (auto simp: child_conditions_iff)
next
  case (deeper c c' c'')
  from deeper.IH [OF deeper.prems] obtain m' d r' where
    w: "isCondition c'" "0 < d" "validateCondition m' h rs c' d = Return r'" "isValid r'"
    by blast
  from valid_child [OF w(3,4,1) deeper.hyps(2)] deeper.hyps(2) w(2) show ?case
    by (auto simp: child_conditions_iff)
qed

lemma nested_result_empty_branch:
  assumes "validateCondition m h rs c d = Return r" and "isValid r" and "isCondition c"
    and "0 < d" and "has_key ''result'' c"
  shows "branch_nodes c = []"
proof -
  from validateCondition_valid [OF assms(1,2)] isCondition_resolved [OF assms(3), of rs]
  obtain n where
    w: "validateNodes (validateCondition n h rs) h rs c d (isValidCondition c) (branch_nodes c)
          = Return r"
    by auto
  from validateNodes_valid [OF w assms(2)] assms(4,5) show ?thesis by blast
qed

lemma validate_valid:
  assumes "validate n h rs rule = Return r" and "isValid r"
  shows "\<exists>conds. isObject rule \<and> normalize_conditions rule = Return conds \<and> conds \<noteq> []
           \<and> \<not> (isObject (hd conds) \<and> object_keys (hd conds) = [])
           \<and> validateConditions (validateCondition n h rs) valid conds = Return r"
proof -
  from assms have o: "isObject rule"
    by (auto simp: validate_def invalid_def split: if_splits)
  then obtain conds where c: "normalize_conditions rule = Return conds"
    by (cases rule; cases "prop_of rule ''conditions''")
       (simp_all add: isObject_def normalize_conditions_def get_prop_def)
  from assms o c show ?thesis
    by (auto simp: validate_def invalid_def split: if_splits)
qed

text \<open>
  C5, as the claim states it, fails on a rule whose one condition has an empty
  \<^verbatim>\<open>all\<close> branch: \<^verbatim>\<open>validate\<close> accepts it.
\<close>

theorem empty_branch_accepted_counterexample:
  "validate (Suc 0) example_host [] empty_branch_rule = Return valid
   \<and> isValid valid
   \<and> branch_nodes (prop_of empty_branch_rule ''conditions'') = []"
  by (simp add: validate_def walk_defs classifier_defs isValidCondition_def valid_def merge_def
      object_keys_def branch_nodes_def empty_branch_rule_def value_defs)

text \<open>
  C5, amended. For every rule that \<^verbatim>\<open>validate\<close> accepts, the rule is an object and
  its conditions, taken as a sequence, have at least one element, the first of which is
  not an empty object. (Nothing is required of the sequence under \<^verbatim>\<open>any\<close>,
  \<^verbatim>\<open>all\<close> or \<^verbatim>\<open>none\<close>.)
\<close>

theorem accepted_rule_has_condition:
  assumes "validate n h rs rule = Return r" and "isValid r"
  shows "\<exists>conds. isObject rule \<and> normalize_conditions rule = Return conds \<and> conds \<noteq> []
           \<and> \<not> (isObject (hd conds) \<and> object_keys (hd conds) = [])"
  using validate_valid [OF assms] by blast

theorem accepted_rule_has_condition_witness:
  "validate (Suc 0) example_host [] (rule_of push_condition) = Return valid
   \<and> (\<exists>conds. isObject (rule_of push_condition)
         \<and> normalize_conditions (rule_of push_condition) = Return conds \<and> conds \<noteq> []
         \<and> \<not> (isObject (hd conds) \<and> object_keys (hd conds) = []))"
proof -
  have v: "validate (Suc 0) example_host [] (rule_of push_condition) = Return valid"
    by (simp add: validate_def walk_defs classifier_defs isValidCondition_def valid_def merge_def
        object_keys_def validateConstraint_def is_string_def strings_include_def operators_def
        value_defs)
  have i: "isValid valid" by (simp add: valid_def)
  from accepted_rule_has_condition [OF v i] v show ?thesis by simp
qed

section \<open>The result key of a nested condition\<close>

lemma validateCondition_resolved:
  "resolve_node rs c = Return c' \<Longrightarrow> isCondition c' \<Longrightarrow>
   validateCondition m h rs c d = validateCondition m h rs c' d"
  by (cases m) (simp_all add: isCondition_resolved)

text \<open>
  Where the check of the \<^verbatim>\<open>result\<close> key takes effect: it runs after the first node
  of a branch has been processed. So in a rule that \<^verbatim>\<open>validate\<close> accepts, a nested
  condition with a \<^verbatim>\<open>result\<close> key can only have an empty branch; and at depth
  greater than 0 a well-formed condition with a \<^verbatim>\<open>result\<close> key whose first node is a
  condition or a constraint, the validation of which returns, gives the error of the
  check.
\<close>

lemma accepted_nested_result:
  assumes "validate n h rs rule = Return r" and "isValid r"
    and "normalize_conditions rule = Return conds" and "tc \<in> set conds"
    and "resolve_node rs tc = Return c0" and "nested_in rs c0 c" and "has_key ''result'' c"
  shows "branch_nodes c = []"
proof -
  from validate_valid [OF assms(1,2)] assms(3)
  have "validateConditions (validateCondition n h rs) valid conds = Return r" by auto
  from validateConditions_valid [OF this assms(2)] assms(4)
  obtain r' where t: "validateCondition n h rs tc 0 = Return r'" "isValid r'" by blast
  from validateCondition_valid [OF t] assms(5) have c0: "isCondition c0" by auto
  from t validateCondition_resolved [OF assms(5) c0]
  have t0: "validateCondition n h rs c0 0 = Return r'" by simp
  from valid_nested [OF assms(6) t0 t(2) c0] obtain m' d r'' where
    "isCondition c" "0 < d" "validateCondition m' h rs c d = Return r''" "isValid r''"
    by blast
  then show ?thesis using assms(7) nested_result_empty_branch by blast
qed

lemma nested_result_error:
  assumes "0 < d" and "resolve_node rs c = Return c'" and "isValid (isValidCondition c')"
    and "has_key ''result'' c'" and "branch_nodes c' = node # nodes"
    and "resolve_node rs node = Return node'"
    and "validateNode (validateCondition m h rs) h rs node d = Return (Some r1)"
  shows \<open>validateCondition (Suc m) h rs c d
           = Return (invalid ''Nested conditions cannot have a property "result".'' node')\<close>
proof -
  from assms(3) have ic: "isCondition c'" by (rule isValidCondition_isCondition)
  then obtain t where t: "conditionType c' = Return (Some t)"
    using isCondition_type by blast
  with assms(5) have b: "array_elems (prop_of c' t) = node # nodes"
    by (simp add: branch_nodes_def)
  then have a: "is_array (prop_of c' t)"
    by (cases "prop_of c' t") (simp_all add: array_elems_def is_array_def)
  from assms(6,7) have k: "if isCondition node'
      then validateCondition m h rs node' (d + 1) = Return r1
      else isConstraint node' \<and> r1 = validateConstraint h node'"
    by (auto simp: validateNode_Some)
  show ?thesis
    using assms(1,2,3,4,6) t a b k by (auto simp: Let_def)
qed

text \<open>
  C6. The code does not do what the claim says on a rule whose nested condition has a
  \<^verbatim>\<open>result\<close> key and an empty branch: the check of the \<^verbatim>\<open>result\<close> key sits
  inside the loop over the nodes of the branch and never runs, so \<^verbatim>\<open>validate\<close>
  accepts the rule. With one constraint under the same branch the check runs, and the
  rule is rejected with the error \<^verbatim>\<open>Nested conditions cannot have a property "result".\<close>
\<close>

theorem nested_result_accepted:
  \<open>validate (Suc (Suc 0)) h [] nested_result_rule = Return valid
   \<and> nested_in [] (prop_of nested_result_rule ''conditions'') nested_result
   \<and> has_key ''result'' nested_result
   \<and> branch_nodes nested_result = []
   \<and> validate (Suc (Suc 0)) h [] nested_result_nonempty_rule
       = Return (invalid ''Nested conditions cannot have a property "result".''
                   (constraint_of ''pushEnabled'' ''equals'' (JBool False)))\<close>
proof -
  have a: "validate (Suc (Suc 0)) h [] nested_result_rule = Return valid"
    by (simp add: validate_def walk_defs classifier_defs isValidCondition_def valid_def merge_def
        object_keys_def nested_result_rule_def nested_result_def value_defs)
  have b: "nested_in [] (prop_of nested_result_rule ''conditions'') nested_result"
    by (rule nested_in.child)
       (simp add: child_conditions_def branch_nodes_def walk_defs classifier_defs
        nested_result_rule_def nested_result_def value_defs)
  have c: "has_key ''result'' nested_result" "branch_nodes nested_result = []"
    by (simp_all add: nested_result_def branch_nodes_def conditionType_def js_in_def
        array_elems_def)
  have d: \<open>validate (Suc (Suc 0)) h [] nested_result_nonempty_rule
       = Return (invalid ''Nested conditions cannot have a property "result".''
                   (constraint_of ''pushEnabled'' ''equals'' (JBool False)))\<close>
    by (simp add: validate_def walk_defs classifier_defs isValidCondition_def valid_def merge_def
        invalid_def object_keys_def validateConstraint_def is_string_def strings_include_def
        operators_def nested_result_nonempty_rule_def nested_result_nonempty_def value_defs)
  from a b c d show ?thesis by simp
qed

theorem nested_result_accepted_witness:
  \<open>validate (Suc (Suc 0)) example_host [] nested_result_rule = Return valid
   \<and> has_key ''result'' nested_result
   \<and> validate (Suc (Suc 0)) example_host [] nested_result_nonempty_rule
       = Return (invalid ''Nested conditions cannot have a property "result".''
                   (constraint_of ''pushEnabled'' ''equals'' (JBool False)))\<close>
  using nested_result_accepted [of example_host] by simp

section \<open>References to rules that are not stored\<close>

lemma getById_unknown:
  "List.find (\<lambda>r. rule_id r = ident) rs = None \<Longrightarrow>
   resolve_node rs (JStr ident) = Throw (Error (lookup_message ident))"
  by (simp add: resolve_node_def getById_def)

lemma validateCondition_resolve_throws:
  "resolve_node rs c = Throw e \<Longrightarrow> validateCondition (Suc n) h rs c d = Throw e"
  by simp

lemma validateNode_resolve_throws:
  "resolve_node rs x = Throw e \<Longrightarrow> validateNode rec h rs x d = Throw e"
  by (simp add: validateNode_def)

lemma validateNodes_throw:
  assumes "validateNode rec h rs x d = Throw e"
  shows "validateNodes rec h rs c d res (x # post) = Throw e"
proof (cases "resolve_node rs x")
  case (Return node')
  with assms have "isCondition node'" and "rec node' (d + 1) = Throw e"
    by (auto simp: validateNode_def bind_def split: if_splits outcome.splits)
  with Return show ?thesis by simp
next
  case (Throw e')
  with assms show ?thesis by (simp add: validateNode_def)
next
  case OutOfFuel
  with assms show ?thesis by (simp add: validateNode_def)
qed

lemma validateNodes_prefix:
  assumes "\<forall>x\<in>set pre. \<exists>r. validateNode rec h rs x d = Return (Some r) \<and> isValid r"
    and "isValid res" and "pre \<noteq> [] \<longrightarrow> \<not> (0 < d \<and> has_key ''result'' c)"
  shows "\<exists>res'. isValid res'
           \<and> validateNodes rec h rs c d res (pre @ rest) = validateNodes rec h rs c d res' rest"
  using assms
proof (induction pre arbitrary: res)
  case Nil
  then show ?case by auto
next
  case (Cons x pre)
  from Cons.prems(1) obtain r where r: "validateNode rec h rs x d = Return (Some r)" "isValid r"
    by auto
  then obtain node' where n: "resolve_node rs x = Return node'"
    "if isCondition node' then rec node' (d + 1) = Return r
     else isConstraint node' \<and> r = validateConstraint h node'"
    by (auto simp: validateNode_Some)
  have g: "\<not> (0 < d \<and> has_key ''result'' c)" using Cons.prems(3) by simp
  have v: "isValid (merge res r)" using Cons.prems(2) r(2) by (simp add: merge_def)
  have step: "validateNodes rec h rs c d res ((x # pre) @ rest)
                = validateNodes rec h rs c d (merge res r) (pre @ rest)"
    using n g v by (auto split: if_splits)
  have "\<exists>res'. isValid res' \<and> validateNodes rec h rs c d (merge res r) (pre @ rest)
                  = validateNodes rec h rs c d res' rest"
    using Cons.prems(1) g by (intro Cons.IH [OF _ v]) auto
  with step show ?case by simp
qed

lemma validateCondition_node_throws:
  assumes "resolve_node rs c = Return c'" and "isValid (isValidCondition c')"
    and "branch_nodes c' = pre @ x # post"
    and "\<forall>y\<in>set pre. \<exists>r. validateNode (validateCondition n h rs) h rs y d = Return (Some r)
           \<and> isValid r"
    and "pre \<noteq> [] \<longrightarrow> \<not> (0 < d \<and> has_key ''result'' c')"
    and "validateNode (validateCondition n h rs) h rs x d = Throw e"
  shows "validateCondition (Suc n) h rs c d = Throw e"
proof -
  from assms(2) have ic: "isCondition c'" by (rule isValidCondition_isCondition)
  then obtain t where t: "conditionType c' = Return (Some t)"
    using isCondition_type by blast
  with assms(3) have b: "array_elems (prop_of c' t) = pre @ x # post"
    by (simp add: branch_nodes_def)
  then have a: "is_array (prop_of c' t)"
    by (cases "prop_of c' t") (simp_all add: array_elems_def is_array_def)
  from validateNodes_prefix [OF assms(4) assms(2) assms(5), of "x # post"]
  obtain res' where
    "validateNodes (validateCondition n h rs) h rs c' d (isValidCondition c') (pre @ x # post)
       = validateNodes (validateCondition n h rs) h rs c' d res' (x # post)"
    by blast
  also have "\<dots> = Throw e" using assms(6) by (rule validateNodes_throw)
  finally show ?thesis
    using assms(1,2) t a b by (simp add: Let_def)
qed

lemma evaluateNodes_throw:
  assumes "resolve_node rs x = Throw e
           \<or> (evaluateNode rec h rs x crit = Throw e
               \<and> ((t = ''any'' \<and> \<not> res) \<or> (t = ''all'' \<and> res) \<or> (t = ''none'' \<and> res)))"
  shows "evaluateNodes rec h rs t crit res (x # post) = Throw e"
  using assms
  by (cases "resolve_node rs x")
     (auto simp: evaluateNode_def bind_def split: outcome.splits option.splits)

lemma evaluateCondition_node_throws:
  assumes "conditionType c = Return (Some t)" and "iterate (prop_of c t) = Return (pre @ x # post)"
    and "\<forall>y\<in>set pre. \<exists>b. evaluateNode (evaluateCondition n h rs) h rs y crit = Return (Some b)"
    and "resolve_node rs x = Throw e
         \<or> (evaluateNode (evaluateCondition n h rs) h rs x crit = Throw e
             \<and> (if t = ''all''
                 then \<forall>y\<in>set pre. evaluateNode (evaluateCondition n h rs) h rs y crit
                                   = Return (Some True)
                 else \<not> (\<exists>y\<in>set pre. evaluateNode (evaluateCondition n h rs) h rs y crit
                                      = Return (Some True))))"
  shows "evaluateCondition (Suc n) h rs c crit = Throw e"
proof -
  have ty: "t = ''any'' \<or> t = ''all'' \<or> t = ''none''"
    using assms(1) by (rule conditionType_cases)
  have "evaluateNodes (evaluateCondition n h rs) h rs t crit (t \<in> set [''all'', ''none''])
          (pre @ x # post) = Throw e"
    unfolding evaluateNodes_append [OF assms(3) ty]
    by (rule evaluateNodes_throw) (use assms(4) ty in auto)
  then show ?thesis using assms(1,2) by simp
qed

lemma evaluateRule_throws:
  "\<forall>x\<in>set pre. evaluateCondition n h rs x crit = Return False \<Longrightarrow>
   evaluateCondition n h rs c crit = Throw e \<Longrightarrow>
   evaluateRule n h rs (pre @ c # post) crit = Throw e"
  by (induction pre) simp_all

text \<open>
  C4, as the claim states it, fails on a rule whose reference to a rule that is not
  stored comes after a node that is neither a condition nor a constraint: both walks
  stop at that node, \<^verbatim>\<open>validate\<close> returns a ValidationResult and \<^verbatim>\<open>evaluate\<close>
  returns false. It also fails on a rule whose conditions are such a reference itself:
  \<^verbatim>\<open>evaluate\<close> does not look a top-level condition up and throws a TypeError.
\<close>

theorem unreached_reference_counterexample:
  "List.find (\<lambda>r. rule_id r = ''missing'') [] = None
   \<and> validate (Suc 0) example_host [] unreached_reference_rule
       = Return (invalid ''Each node should be a condition or constraint.'' (JNum 5))
   \<and> evaluate (Suc 0) example_host [] unreached_reference_rule push_disabled
       = Return (One False)
   \<and> evaluate (Suc 0) example_host [] (rule_of (JStr ''missing'')) push_disabled
       = Throw TypeError"
  by (simp add: validate_def evaluate_def walk_defs classifier_defs isValidCondition_def
      valid_def merge_def invalid_def object_keys_def unreached_reference_rule_def value_defs)

text \<open>
  C4, amended. Six statements, for an exception \<open>e\<close>.
  \<^enum> The lookup of an identifier that matches no stored rule throws the error
    \<^verbatim>\<open>Invalid rule reference. <id> does not reference any known rule.\<close>
  \<^enum> In the Validator, a condition whose own lookup throws \<open>e\<close> throws \<open>e\<close>.
  \<^enum> In the Validator, a condition that resolves to a well-formed condition throws \<open>e\<close>
    when, for a node \<open>x\<close> under its branch: every node before \<open>x\<close> validates as valid;
    if there is a node before \<open>x\<close>, the condition is not one at depth greater than 0
    with a \<^verbatim>\<open>result\<close> key (that one is rejected after its first node); and the lookup
    of \<open>x\<close> throws \<open>e\<close>, or \<open>x\<close> resolves to a condition whose validation throws \<open>e\<close>.
  \<^enum> \<^verbatim>\<open>validate\<close> throws \<open>e\<close> when the rule passes the two entry checks, the
    validation of every top-level condition before some condition returns a result, and
    the validation of that condition throws \<open>e\<close>.
  \<^enum> In the Evaluator, a condition with a branch type and an iterable branch throws \<open>e\<close>
    when, for a node \<open>x\<close> under its branch: every node before \<open>x\<close> evaluates to a
    boolean; and the lookup of \<open>x\<close> throws \<open>e\<close>, or the evaluation of \<open>x\<close> throws \<open>e\<close>
    and the running result does not skip it (for \<^verbatim>\<open>all\<close>, every node before \<open>x\<close>
    is true; for \<^verbatim>\<open>any\<close> and \<^verbatim>\<open>none\<close>, no node before \<open>x\<close> is true).
  \<^enum> \<^verbatim>\<open>evaluate\<close>, on a rule that is neither null nor undefined and criteria that
    are not an array, throws \<open>e\<close> when every top-level condition before some condition
    evaluates to false and the evaluation of that condition throws \<open>e\<close>.

  So the lookup error of a reference that a walk reaches under a branch is thrown by the
  call, and is neither folded into a ValidationResult nor returned as a boolean; a
  reference that a walk does not reach is not looked up. The statements on the Evaluator
  are about the nodes under a branch.
\<close>

theorem lookup_error_propagates:
  "(List.find (\<lambda>r. rule_id r = ident) rs = None
    \<longrightarrow> resolve_node rs (JStr ident) = Throw (Error (lookup_message ident)))
   \<and> (resolve_node rs vc = Throw e \<longrightarrow> validateCondition (Suc n) h rs vc d = Throw e)
   \<and> (resolve_node rs vc = Return vc' \<and> isValid (isValidCondition vc')
       \<and> branch_nodes vc' = vpre @ vx # vpost
       \<and> (\<forall>y\<in>set vpre. \<exists>r. validateNode (validateCondition n h rs) h rs y d = Return (Some r)
             \<and> isValid r)
       \<and> (vpre \<noteq> [] \<longrightarrow> \<not> (0 < d \<and> has_key ''result'' vc'))
       \<and> (resolve_node rs vx = Throw e
            \<or> validateNode (validateCondition n h rs) h rs vx d = Throw e)
    \<longrightarrow> validateCondition (Suc n) h rs vc d = Throw e)
   \<and> (isObject rule \<and> normalize_conditions rule = Return (tpre @ tc # tpost)
       \<and> \<not> (isObject (hd (tpre @ tc # tpost)) \<and> object_keys (hd (tpre @ tc # tpost)) = [])
       \<and> (\<forall>x\<in>set tpre. \<exists>r. validateCondition n h rs x 0 = Return r)
       \<and> validateCondition n h rs tc 0 = Throw e
    \<longrightarrow> validate n h rs rule = Throw e)
   \<and> (conditionType ec = Return (Some t) \<and> iterate (prop_of ec t) = Return (epre @ ex # epost)
       \<and> (\<forall>y\<in>set epre. \<exists>b. evaluateNode (evaluateCondition n h rs) h rs y crit = Return (Some b))
       \<and> (resolve_node rs ex = Throw e
            \<or> (evaluateNode (evaluateCondition n h rs) h rs ex crit = Throw e
                \<and> (if t = ''all''
                    then \<forall>y\<in>set epre. evaluateNode (evaluateCondition n h rs) h rs y crit
                                       = Return (Some True)
                    else \<not> (\<exists>y\<in>set epre. evaluateNode (evaluateCondition n h rs) h rs y crit
                                          = Return (Some True)))))
    \<longrightarrow> evaluateCondition (Suc n) h rs ec crit = Throw e)
   \<and> (erule \<noteq> JUndefined \<and> erule \<noteq> JNull \<and> \<not> is_array crit
       \<and> (case prop_of erule ''conditions'' of JArr xs \<Rightarrow> xs | v \<Rightarrow> [v]) = rpre @ rc # rpost
       \<and> (\<forall>x\<in>set rpre. evaluateCondition n h rs x crit = Return False)
       \<and> evaluateCondition n h rs rc crit = Throw e
    \<longrightarrow> evaluate n h rs erule crit = Throw e)"
proof (intro conjI impI; (elim conjE)?)
  assume "List.find (\<lambda>r. rule_id r = ident) rs = None"
  then show "resolve_node rs (JStr ident) = Throw (Error (lookup_message ident))"
    by (rule getById_unknown)
next
  assume "resolve_node rs vc = Throw e"
  then show "validateCondition (Suc n) h rs vc d = Throw e"
    by (rule validateCondition_resolve_throws)
next
  assume a: "resolve_node rs vc = Return vc'" "isValid (isValidCondition vc')"
    "branch_nodes vc' = vpre @ vx # vpost"
    "\<forall>y\<in>set vpre. \<exists>r. validateNode (validateCondition n h rs) h rs y d = Return (Some r)
       \<and> isValid r"
    "vpre \<noteq> [] \<longrightarrow> \<not> (0 < d \<and> has_key ''result'' vc')"
    and b: "resolve_node rs vx = Throw e
            \<or> validateNode (validateCondition n h rs) h rs vx d = Throw e"
  from b have "validateNode (validateCondition n h rs) h rs vx d = Throw e"
    using validateNode_resolve_throws by blast
  with a show "validateCondition (Suc n) h rs vc d = Throw e"
    by (rule validateCondition_node_throws)
next
  assume a: "isObject rule" "normalize_conditions rule = Return (tpre @ tc # tpost)"
    "\<not> (isObject (hd (tpre @ tc # tpost)) \<and> object_keys (hd (tpre @ tc # tpost)) = [])"
    and b: "\<forall>x\<in>set tpre. \<exists>r. validateCondition n h rs x 0 = Return r"
    "validateCondition n h rs tc 0 = Throw e"
  have "tpre @ tc # tpost \<noteq> []" by simp
  from validate_walks [OF a(1,2) this a(3), of n h rs] b
  show "validate n h rs rule = Throw e"
    by (simp add: validateConditions_throws)
next
  assume "conditionType ec = Return (Some t)" "iterate (prop_of ec t) = Return (epre @ ex # epost)"
    "\<forall>y\<in>set epre. \<exists>b. evaluateNode (evaluateCondition n h rs) h rs y crit = Return (Some b)"
    "resolve_node rs ex = Throw e
       \<or> (evaluateNode (evaluateCondition n h rs) h rs ex crit = Throw e
           \<and> (if t = ''all''
               then \<forall>y\<in>set epre. evaluateNode (evaluateCondition n h rs) h rs y crit
                                  = Return (Some True)
               else \<not> (\<exists>y\<in>set epre. evaluateNode (evaluateCondition n h rs) h rs y crit
                                     = Return (Some True))))"
  then show "evaluateCondition (Suc n) h rs ec crit = Throw e"
    by (rule evaluateCondition_node_throws)
next
  assume a: "erule \<noteq> JUndefined" "erule \<noteq> JNull" "\<not> is_array crit"
    and b: "(case prop_of erule ''conditions'' of JArr xs \<Rightarrow> xs | v \<Rightarrow> [v]) = rpre @ rc # rpost"
    "\<forall>x\<in>set rpre. evaluateCondition n h rs x crit = Return False"
    "evaluateCondition n h rs rc crit = Throw e"
  from evaluate_single [OF a, of n h rs] b show "evaluate n h rs erule crit = Throw e"
    by (simp add: evaluateRule_throws del: evaluateRule.simps)
qed

theorem lookup_error_propagates_witness:
  "resolve_node [] (JStr ''missing'') = Throw (Error (lookup_message ''missing''))
   \<and> validateCondition (Suc 0) example_host [] (JStr ''missing'') 0
       = Throw (Error (lookup_message ''missing''))
   \<and> validateCondition (Suc 0) example_host [] (prop_of missing_reference_rule ''conditions'') 0
       = Throw (Error (lookup_message ''missing''))
   \<and> validate (Suc 0) example_host [] missing_reference_rule
       = Throw (Error (lookup_message ''missing''))
   \<and> evaluateCondition (Suc 0) example_host [] (prop_of missing_reference_rule ''conditions'')
        push_disabled = Throw (Error (lookup_message ''missing''))
   \<and> evaluate (Suc 0) example_host [] missing_reference_rule push_disabled
       = Throw (Error (lookup_message ''missing''))
   \<and> validateCondition (Suc (Suc 0)) example_host [] nested_missing_reference 0
       = Throw (Error (lookup_message ''missing''))
   \<and> evaluateCondition (Suc (Suc 0)) example_host [] nested_missing_reference push_disabled
       = Throw (Error (lookup_message ''missing''))"
proof -
  let ?k = "constraint_of ''pushEnabled'' ''equals'' (JBool False)"
  let ?c = "JObj [(''all'', JArr [?k, JStr ''missing''])]"
  let ?e = "Error (lookup_message ''missing'')"
  have c: "prop_of missing_reference_rule ''conditions'' = ?c"
    by (simp add: missing_reference_rule_def rule_of_def)
  have u: "List.find (\<lambda>r. rule_id r = ''missing'') [] = None" by simp
  have w1: "resolve_node [] (JStr ''missing'') = Throw ?e"
    using lookup_error_propagates [THEN conjunct1, THEN mp, OF u] .
  have w2: "validateCondition (Suc 0) example_host [] (JStr ''missing'') 0 = Throw ?e"
    using lookup_error_propagates [THEN conjunct2, THEN conjunct1, THEN mp, OF w1] .
  have h3: "resolve_node [] ?c = Return ?c \<and> isValid (isValidCondition ?c)
      \<and> branch_nodes ?c = [?k] @ JStr ''missing'' # []
      \<and> (\<forall>y\<in>set [?k]. \<exists>r. validateNode (validateCondition 0 example_host []) example_host [] y 0
             = Return (Some r) \<and> isValid r)
      \<and> ([?k] \<noteq> [] \<longrightarrow> \<not> (0 < (0::nat) \<and> has_key ''result'' ?c))
      \<and> (resolve_node [] (JStr ''missing'') = Throw ?e
           \<or> validateNode (validateCondition 0 example_host []) example_host [] (JStr ''missing'') 0
               = Throw ?e)"
    using w1
    by (simp add: resolve_node_def isValidCondition_def valid_def classifier_defs
        branch_nodes_def conditionType_def js_in_def array_elems_def validateNode_def
        validateConstraint_def is_string_def strings_include_def operators_def value_defs)
  have w3: "validateCondition (Suc 0) example_host [] ?c 0 = Throw ?e"
    using lookup_error_propagates [THEN conjunct2, THEN conjunct2, THEN conjunct1, THEN mp, OF h3] .
  have h4: "isObject missing_reference_rule
      \<and> normalize_conditions missing_reference_rule = Return ([] @ ?c # [])
      \<and> \<not> (isObject (hd ([] @ ?c # [])) \<and> object_keys (hd ([] @ ?c # [])) = [])
      \<and> (\<forall>x\<in>set []. \<exists>r. validateCondition (Suc 0) example_host [] x 0 = Return r)
      \<and> validateCondition (Suc 0) example_host [] ?c 0 = Throw ?e"
    using w3
    by (simp add: isObject_def normalize_conditions_def get_prop_def object_keys_def
        missing_reference_rule_def rule_of_def)
  have w4: "validate (Suc 0) example_host [] missing_reference_rule = Throw ?e"
    using lookup_error_propagates
      [THEN conjunct2, THEN conjunct2, THEN conjunct2, THEN conjunct1, THEN mp, OF h4] .
  have h5: "conditionType ?c = Return (Some ''all'')
      \<and> iterate (prop_of ?c ''all'') = Return ([?k] @ JStr ''missing'' # [])
      \<and> (\<forall>y\<in>set [?k]. \<exists>b. evaluateNode (evaluateCondition 0 example_host []) example_host [] y
             push_disabled = Return (Some b))
      \<and> (resolve_node [] (JStr ''missing'') = Throw ?e
           \<or> (evaluateNode (evaluateCondition 0 example_host []) example_host []
                 (JStr ''missing'') push_disabled = Throw ?e
               \<and> (if ''all'' = ''all''
                   then \<forall>y\<in>set [?k]. evaluateNode (evaluateCondition 0 example_host [])
                          example_host [] y push_disabled = Return (Some True)
                   else \<not> (\<exists>y\<in>set [?k]. evaluateNode (evaluateCondition 0 example_host [])
                             example_host [] y push_disabled = Return (Some True)))))"
    using w1
    by (auto simp: conditionType_def js_in_def iterate_def evaluateNode_def resolve_node_def
        dispatch_def classifier_defs constraint_defs value_defs)
  have w5: "evaluateCondition (Suc 0) example_host [] ?c push_disabled = Throw ?e"
    using lookup_error_propagates
      [THEN conjunct2, THEN conjunct2, THEN conjunct2, THEN conjunct2, THEN conjunct1, THEN mp,
       OF h5] .
  have h6: "missing_reference_rule \<noteq> JUndefined \<and> missing_reference_rule \<noteq> JNull
      \<and> \<not> is_array push_disabled
      \<and> (case prop_of missing_reference_rule ''conditions'' of JArr xs \<Rightarrow> xs | v \<Rightarrow> [v])
          = [] @ ?c # []
      \<and> (\<forall>x\<in>set []. evaluateCondition (Suc 0) example_host [] x push_disabled = Return False)
      \<and> evaluateCondition (Suc 0) example_host [] ?c push_disabled = Throw ?e"
    using w5
    by (simp add: is_array_def missing_reference_rule_def rule_of_def push_disabled_def)
  have w6: "evaluate (Suc 0) example_host [] missing_reference_rule push_disabled = Throw ?e"
    using lookup_error_propagates
      [THEN conjunct2, THEN conjunct2, THEN conjunct2, THEN conjunct2, THEN conjunct2, THEN mp,
       OF h6] .
  let ?i = "JObj [(''any'', JArr [JStr ''missing''])]"
  have i1: "validateCondition (Suc 0) example_host [] ?i 1 = Throw ?e"
    by (simp add: walk_defs classifier_defs isValidCondition_def valid_def getById_def)
  have i2: "evaluateCondition (Suc 0) example_host [] ?i push_disabled = Throw ?e"
    by (simp add: walk_defs classifier_defs getById_def)
  have h7: "resolve_node [] nested_missing_reference = Return nested_missing_reference
      \<and> isValid (isValidCondition nested_missing_reference)
      \<and> branch_nodes nested_missing_reference = [] @ ?i # []
      \<and> (\<forall>y\<in>set []. \<exists>r. validateNode (validateCondition (Suc 0) example_host []) example_host []
             y 0 = Return (Some r) \<and> isValid r)
      \<and> ([] \<noteq> ([] :: jsval list) \<longrightarrow> \<not> (0 < (0::nat) \<and> has_key ''result'' nested_missing_reference))
      \<and> (resolve_node [] ?i = Throw ?e
           \<or> validateNode (validateCondition (Suc 0) example_host []) example_host [] ?i 0
               = Throw ?e)"
    using i1
    by (simp add: nested_missing_reference_def resolve_node_def isValidCondition_def valid_def
        classifier_defs branch_nodes_def conditionType_def js_in_def array_elems_def
        validateNode_def del: validateCondition.simps)
  have w7: "validateCondition (Suc (Suc 0)) example_host [] nested_missing_reference 0 = Throw ?e"
    using lookup_error_propagates [THEN conjunct2, THEN conjunct2, THEN conjunct1, THEN mp, OF h7] .
  have h8: "conditionType nested_missing_reference = Return (Some ''all'')
      \<and> iterate (prop_of nested_missing_reference ''all'') = Return ([] @ ?i # [])
      \<and> (\<forall>y\<in>set []. \<exists>b. evaluateNode (evaluateCondition (Suc 0) example_host []) example_host []
             y push_disabled = Return (Some b))
      \<and> (resolve_node [] ?i = Throw ?e
           \<or> (evaluateNode (evaluateCondition (Suc 0) example_host []) example_host []
                 ?i push_disabled = Throw ?e
               \<and> (if ''all'' = ''all''
                   then \<forall>y\<in>set []. evaluateNode (evaluateCondition (Suc 0) example_host [])
                          example_host [] y push_disabled = Return (Some True)
                   else \<not> (\<exists>y\<in>set []. evaluateNode (evaluateCondition (Suc 0) example_host [])
                             example_host [] y push_disabled = Return (Some True)))))"
    using i2
    by (simp add: nested_missing_reference_def conditionType_def js_in_def iterate_def
        evaluateNode_def resolve_node_def dispatch_def classifier_defs
        del: evaluateCondition.simps)
  have w8: "evaluateCondition (Suc (Suc 0)) example_host [] nested_missing_reference push_disabled
              = Throw ?e"
    using lookup_error_propagates
      [THEN conjunct2, THEN conjunct2, THEN conjunct2, THEN conjunct2, THEN conjunct1, THEN mp,
       OF h8] .
  from w1 w2 w3 w4 w5 w6 w7 w8 c show ?thesis by simp
qed

end
